theory Spec2Isabelle
  imports Main "HOL-Library.Multiset" "HOL-Library.Word"
begin

section \<open>The store: tables, privileges, policies and triggers of the schema\<close>

text \<open>
  The backend is a relational schema. A table is the list of its rows. Identifiers
  (UUID) are strings; a timestamp is an integer number of microseconds since the start
  of the year 2000, as the engine stores it; text is a list of characters, so \<open>length\<close>
  is the schema's \<open>char_length\<close> on text whose characters are single code units.

  The column \<open>shame_count\<close> is an SQL INTEGER: \<open>int4\<close> is its range, and arithmetic that
  leaves the range raises \<open>NumericValueOutOfRange\<close>. A value that a statement supplies
  for the column is a 32-bit word, read as a signed number. Columns that the schema leaves nullable but
  that every row gets from its default (\<open>shame_count\<close>, \<open>is_published\<close>, \<open>created_at\<close>)
  are modelled as never null.

  A statement that raises an error is rolled back: it leaves the store as it was.
\<close>

type_synonym uuid = string
type_synonym timestamptz = int

definition int4 :: "int \<Rightarrow> bool" where
  "int4 n \<longleftrightarrow> - 2147483648 \<le> n \<and> n \<le> 2147483647"

datatype tyrant_category = Federal | State | Local | Law_enforcement

datatype pg_error =
    CheckViolation string
  | UniqueViolation string
  | ForeignKeyViolation string
  | InsufficientPrivilege string
  | NumericValueOutOfRange
  | DatetimeFieldOverflow
  | InvalidTextRepresentation string

fun sqlstate :: "pg_error \<Rightarrow> string" where
  "sqlstate (CheckViolation c) = ''23514''"
| "sqlstate (UniqueViolation c) = ''23505''"
| "sqlstate (ForeignKeyViolation c) = ''23503''"
| "sqlstate (InsufficientPrivilege t) = ''42501''"
| "sqlstate NumericValueOutOfRange = ''22003''"
| "sqlstate DatetimeFieldOverflow = ''22008''"
| "sqlstate (InvalidTextRepresentation v) = ''22P02''"

text \<open>
  The enum type \<open>tyrant_category\<close>: its four labels, the output function that prints a
  value as its label, and the input function that reads a label (exact match, case
  sensitive) and rejects every other text.
\<close>

fun tyrant_category_out :: "tyrant_category \<Rightarrow> string" where
  "tyrant_category_out Federal = ''federal''"
| "tyrant_category_out State = ''state''"
| "tyrant_category_out Local = ''local''"
| "tyrant_category_out Law_enforcement = ''law_enforcement''"

definition tyrant_category_labels :: "string list" where
  "tyrant_category_labels = [''federal'', ''state'', ''local'', ''law_enforcement'']"

definition tyrant_category_in :: "string \<Rightarrow> pg_error + tyrant_category" where
  "tyrant_category_in x =
     (if x = ''federal'' then Inr Federal
      else if x = ''state'' then Inr State
      else if x = ''local'' then Inr Local
      else if x = ''law_enforcement'' then Inr Law_enforcement
      else Inl (InvalidTextRepresentation x))"

record tyrant =
  t_id :: uuid
  t_name :: string
  t_title :: string
  t_position :: string
  t_category :: tyrant_category
  t_description :: string
  t_image_url :: "string option"
  t_evidence_urls :: "string list"
  t_shame_count :: int
  t_is_published :: bool
  t_created_at :: timestamptz
  t_updated_at :: timestamptz

record vote =
  v_id :: uuid
  v_tyrant_id :: uuid
  v_ip_hash :: string
  v_created_at :: timestamptz

subsection \<open>Roles, privileges and sessions\<close>

text \<open>
  The roles the schema grants to, and the owner of the tables (the role that ran the
  schema). The schema's \<open>GRANT\<close> statements give \<open>service_role\<close> every privilege on
  every table, the visitor roles \<open>anon\<close> and \<open>authenticated\<close> \<open>SELECT\<close> on \<open>tyrants\<close>
  and \<open>SELECT, INSERT\<close> on \<open>votes\<close>. A database may hold further grants that the schema
  does not make (a platform's default privileges): they are the store's \<open>extra_grants\<close>.
  The owner has every privilege.
\<close>

datatype db_role = Postgres | Anon | Authenticated | Service_role

datatype db_table = Tyrants | Votes

datatype privilege = Select | Insert | Update | Delete

definition schema_grants :: "(db_role \<times> db_table \<times> privilege) list" where
  "schema_grants =
     [(Service_role, Tyrants, Select), (Service_role, Tyrants, Insert),
      (Service_role, Tyrants, Update), (Service_role, Tyrants, Delete),
      (Service_role, Votes, Select), (Service_role, Votes, Insert),
      (Service_role, Votes, Update), (Service_role, Votes, Delete),
      (Anon, Tyrants, Select), (Authenticated, Tyrants, Select),
      (Anon, Votes, Select), (Anon, Votes, Insert),
      (Authenticated, Votes, Select), (Authenticated, Votes, Insert)]"

record store =
  tyrants :: "tyrant list"
  votes :: "vote list"
  extra_grants :: "(db_role \<times> db_table \<times> privilege) list"

definition empty_store :: store where
  "empty_store = \<lparr>tyrants = [], votes = [], extra_grants = []\<rparr>"

definition has_privilege :: "store \<Rightarrow> db_role \<Rightarrow> db_table \<Rightarrow> privilege \<Rightarrow> bool" where
  "has_privilege s r tbl p \<longleftrightarrow>
     r = Postgres \<or> (r, tbl, p) \<in> set schema_grants \<or> (r, tbl, p) \<in> set (extra_grants s)"

text \<open>
  A session runs statements as a role. Row level security is enabled on both tables; it
  does not apply to the owner nor to a role with the \<open>BYPASSRLS\<close> attribute, which the
  schema gives to no role (a platform may). The admin policies test whether the relation
  \<open>auth.jwt_claims\<close>, which the schema reads but does not create, holds a row whose claims
  have \<open>role = admin\<close>; \<open>s_jwt_admin\<close> is the answer for the session.
\<close>

record session =
  s_role :: db_role
  s_bypassrls :: bool
  s_jwt_admin :: bool

definition bypass_rls :: "session \<Rightarrow> bool" where
  "bypass_rls sess \<longleftrightarrow> s_role sess = Postgres \<or> s_bypassrls sess"

subsection \<open>Row level security policies\<close>

text \<open>
  The policies as the schema declares them, and what they add up to for each command.
  A row passes when some policy for the command admits it; a command that reads the
  row's columns must pass a \<open>SELECT\<close> policy as well. \<open>votes\<close> has no policy for
  \<open>UPDATE\<close> or \<open>DELETE\<close>, so under row level security those commands see no row.
\<close>

definition tyrants_public_read :: "tyrant \<Rightarrow> bool" where
  "tyrants_public_read t \<longleftrightarrow> t_is_published t = True"

definition tyrants_admin_all :: "session \<Rightarrow> bool" where
  "tyrants_admin_all sess \<longleftrightarrow> s_jwt_admin sess"

definition votes_public_insert :: "vote \<Rightarrow> bool" where
  "votes_public_insert NEW \<longleftrightarrow> True"

definition votes_public_read :: "vote \<Rightarrow> bool" where
  "votes_public_read v \<longleftrightarrow> True"

definition tyrants_rls_insert :: "session \<Rightarrow> tyrant \<Rightarrow> bool" where
  "tyrants_rls_insert sess NEW \<longleftrightarrow> bypass_rls sess \<or> tyrants_admin_all sess"

definition tyrants_rls_modify :: "session \<Rightarrow> tyrant \<Rightarrow> bool" where
  "tyrants_rls_modify sess t \<longleftrightarrow>
     bypass_rls sess \<or>
     (tyrants_admin_all sess \<and> (tyrants_public_read t \<or> tyrants_admin_all sess))"

definition votes_rls_insert :: "session \<Rightarrow> vote \<Rightarrow> bool" where
  "votes_rls_insert sess NEW \<longleftrightarrow> bypass_rls sess \<or> votes_public_insert NEW"

definition votes_rls_modify :: "session \<Rightarrow> vote \<Rightarrow> bool" where
  "votes_rls_modify sess v \<longleftrightarrow> bypass_rls sess"

subsection \<open>Check constraints\<close>

definition tyrants_name_check :: "string \<Rightarrow> bool" where
  "tyrants_name_check n \<longleftrightarrow> length n \<ge> 2"

definition tyrants_description_check :: "string \<Rightarrow> bool" where
  "tyrants_description_check d \<longleftrightarrow> length d \<ge> 10"

definition votes_ip_hash_check :: "string \<Rightarrow> bool" where
  "votes_ip_hash_check h \<longleftrightarrow> length h = 64"

subsection \<open>Trigger functions\<close>

text \<open>
  \<open>update_updated_at_column\<close> runs before every update of a row of \<open>tyrants\<close>, so the
  two counter triggers, which update \<open>tyrants\<close>, refresh \<open>updated_at\<close> of the rows they
  touch. \<open>increment_shame_count\<close> runs after each inserted vote (\<open>NEW\<close>) and
  \<open>decrement_shame_count\<close> after each deleted vote (\<open>OLD\<close>).

  Both functions are declared without \<open>SECURITY DEFINER\<close>, so their \<open>UPDATE tyrants\<close>
  runs with the rights of the session that fired the trigger: the statement needs the
  privileges \<open>UPDATE\<close> and \<open>SELECT\<close> on \<open>tyrants\<close>, and it updates the rows with the
  vote's \<open>tyrant_id\<close> that row level security lets the session modify. The engine
  computes \<open>shame_count + 1\<close>, and \<open>shame_count - 1\<close> before \<open>GREATEST\<close>, as INTEGER.
\<close>

definition update_updated_at_column :: "timestamptz \<Rightarrow> tyrant \<Rightarrow> tyrant" where
  "update_updated_at_column now NEW = NEW\<lparr>t_updated_at := now\<rparr>"

definition increment_shame_count :: "session \<Rightarrow> timestamptz \<Rightarrow> vote \<Rightarrow> store \<Rightarrow> pg_error + store" where
  "increment_shame_count sess now NEW s =
     (let hit = (\<lambda>t. t_id t = v_tyrant_id NEW \<and> tyrants_rls_modify sess t) in
      if \<not> (has_privilege s (s_role sess) Tyrants Update \<and> has_privilege s (s_role sess) Tyrants Select)
        then Inl (InsufficientPrivilege ''tyrants'')
      else if list_ex (\<lambda>t. hit t \<and> \<not> int4 (t_shame_count t + 1)) (tyrants s)
        then Inl NumericValueOutOfRange
      else Inr (s\<lparr>tyrants :=
             map (\<lambda>t. if hit t
                      then update_updated_at_column now (t\<lparr>t_shame_count := t_shame_count t + 1\<rparr>)
                      else t) (tyrants s)\<rparr>))"

definition decrement_shame_count :: "session \<Rightarrow> timestamptz \<Rightarrow> vote \<Rightarrow> store \<Rightarrow> pg_error + store" where
  "decrement_shame_count sess now OLD s =
     (let hit = (\<lambda>t. t_id t = v_tyrant_id OLD \<and> tyrants_rls_modify sess t) in
      if \<not> (has_privilege s (s_role sess) Tyrants Update \<and> has_privilege s (s_role sess) Tyrants Select)
        then Inl (InsufficientPrivilege ''tyrants'')
      else if list_ex (\<lambda>t. hit t \<and> \<not> int4 (t_shame_count t - 1)) (tyrants s)
        then Inl NumericValueOutOfRange
      else Inr (s\<lparr>tyrants :=
             map (\<lambda>t. if hit t
                      then update_updated_at_column now (t\<lparr>t_shame_count := max (t_shame_count t - 1) 0\<rparr>)
                      else t) (tyrants s)\<rparr>))"

text \<open>Row triggers of one statement run one after the other; the first error stops them.\<close>

fun run_triggers :: "(vote \<Rightarrow> store \<Rightarrow> pg_error + store) \<Rightarrow> vote list \<Rightarrow> store \<Rightarrow> pg_error + store" where
  "run_triggers f [] s = Inr s"
| "run_triggers f (v # vs) s = (case f v s of Inl e \<Rightarrow> Inl e | Inr s' \<Rightarrow> run_triggers f vs s')"

subsection \<open>Writes to \<open>votes\<close>\<close>

text \<open>
  Inserting a vote (the spec's \<open>cast_vote\<close>): the row gets its id from the UUID
  generator (\<open>new_id\<close>) and its creation time from the clock (\<open>now\<close>). The engine checks
  the session's privilege and the insert policy, then the row's check constraint, then
  the indexes (primary key, then the unique index on \<open>(tyrant_id, ip_hash)\<close>). After the
  row is in, the foreign key is checked and the insert trigger runs; an error of
  either rolls the insert back.
\<close>

definition votes_insert ::
  "session \<Rightarrow> store \<Rightarrow> uuid \<Rightarrow> uuid \<Rightarrow> string \<Rightarrow> timestamptz \<Rightarrow> (pg_error + vote) \<times> store" where
  "votes_insert sess s new_id tyrant_id ip_hash now =
     (let NEW = \<lparr>v_id = new_id, v_tyrant_id = tyrant_id, v_ip_hash = ip_hash, v_created_at = now\<rparr> in
      if \<not> has_privilege s (s_role sess) Votes Insert then (Inl (InsufficientPrivilege ''votes''), s)
      else if \<not> votes_rls_insert sess NEW then (Inl (InsufficientPrivilege ''votes''), s)
      else if \<not> votes_ip_hash_check ip_hash then (Inl (CheckViolation ''votes_ip_hash_check''), s)
      else if list_ex (\<lambda>v. v_id v = new_id) (votes s) then (Inl (UniqueViolation ''votes_pkey''), s)
      else if list_ex (\<lambda>v. v_tyrant_id v = tyrant_id \<and> v_ip_hash v = ip_hash) (votes s)
        then (Inl (UniqueViolation ''idx_votes_tyrant_ip_unique''), s)
      else if \<not> list_ex (\<lambda>t. t_id t = tyrant_id) (tyrants s)
        then (Inl (ForeignKeyViolation ''votes_tyrant_id_fkey''), s)
      else case increment_shame_count sess now NEW (s\<lparr>votes := votes s @ [NEW]\<rparr>) of
             Inl e \<Rightarrow> (Inl e, s)
           | Inr s' \<Rightarrow> (Inr NEW, s'))"

text \<open>
  Deleting a vote by id (the spec's \<open>revoke_vote\<close>): the session needs \<open>DELETE\<close> and
  \<open>SELECT\<close> on \<open>votes\<close>; every row with that id that row level security lets it modify
  is removed, and the delete trigger runs once for each removed row. The removed rows
  are returned; none means that the statement found no vote to delete.
\<close>

definition votes_delete :: "session \<Rightarrow> store \<Rightarrow> uuid \<Rightarrow> timestamptz \<Rightarrow> (pg_error + vote list) \<times> store" where
  "votes_delete sess s vote_id now =
     (let hit = (\<lambda>v. v_id v = vote_id \<and> votes_rls_modify sess v);
          OLDs = filter hit (votes s) in
      if \<not> (has_privilege s (s_role sess) Votes Delete \<and> has_privilege s (s_role sess) Votes Select)
        then (Inl (InsufficientPrivilege ''votes''), s)
      else case run_triggers (decrement_shame_count sess now) OLDs
                  (s\<lparr>votes := filter (\<lambda>v. \<not> hit v) (votes s)\<rparr>) of
             Inl e \<Rightarrow> (Inl e, s)
           | Inr s' \<Rightarrow> (Inr OLDs, s'))"

text \<open>
  Updating a vote by id: any of its columns may get a new value. No trigger is declared
  for updates of \<open>votes\<close>. Both unique indexes hold of every table the engine stores, so
  after the update they fail exactly when the keys of the new table are not distinct.
\<close>

record vote_update =
  vu_id :: "uuid option"
  vu_tyrant_id :: "uuid option"
  vu_ip_hash :: "string option"
  vu_created_at :: "timestamptz option"

definition apply_vote_update :: "vote_update \<Rightarrow> vote \<Rightarrow> vote" where
  "apply_vote_update u v =
     \<lparr>v_id = (case vu_id u of None \<Rightarrow> v_id v | Some x \<Rightarrow> x),
      v_tyrant_id = (case vu_tyrant_id u of None \<Rightarrow> v_tyrant_id v | Some x \<Rightarrow> x),
      v_ip_hash = (case vu_ip_hash u of None \<Rightarrow> v_ip_hash v | Some x \<Rightarrow> x),
      v_created_at = (case vu_created_at u of None \<Rightarrow> v_created_at v | Some x \<Rightarrow> x)\<rparr>"

definition update_vote ::
  "session \<Rightarrow> store \<Rightarrow> uuid \<Rightarrow> vote_update \<Rightarrow> (pg_error + vote list) \<times> store" where
  "update_vote sess s vote_id u =
     (let hit = (\<lambda>v. v_id v = vote_id \<and> votes_rls_modify sess v);
          NEWs = map (apply_vote_update u) (filter hit (votes s));
          table = map (\<lambda>v. if hit v then apply_vote_update u v else v) (votes s) in
      if \<not> (has_privilege s (s_role sess) Votes Update \<and> has_privilege s (s_role sess) Votes Select)
        then (Inl (InsufficientPrivilege ''votes''), s)
      else if NEWs = [] then (Inr [], s)
      else if list_ex (\<lambda>v. \<not> votes_ip_hash_check (v_ip_hash v)) NEWs
        then (Inl (CheckViolation ''votes_ip_hash_check''), s)
      else if \<not> distinct (map v_id table) then (Inl (UniqueViolation ''votes_pkey''), s)
      else if \<not> distinct (map (\<lambda>v. (v_tyrant_id v, v_ip_hash v)) table)
        then (Inl (UniqueViolation ''idx_votes_tyrant_ip_unique''), s)
      else if list_ex (\<lambda>v. \<not> list_ex (\<lambda>t. t_id t = v_tyrant_id v) (tyrants s)) NEWs
        then (Inl (ForeignKeyViolation ''votes_tyrant_id_fkey''), s)
      else (Inr NEWs, s\<lparr>votes := table\<rparr>))"

subsection \<open>Writes to \<open>tyrants\<close>\<close>

text \<open>
  Creating an entry: the caller gives the descriptive columns and may give the counter
  and the publication flag, which otherwise take their defaults 0 and false; both
  timestamps take the clock. The engine tests the check constraints of a table in the
  order of their names, \<open>tyrants_description_check\<close> before \<open>tyrants_name_check\<close>.
\<close>

record tyrant_new =
  n_name :: string
  n_title :: string
  n_position :: string
  n_category :: tyrant_category
  n_description :: string
  n_image_url :: "string option"
  n_evidence_urls :: "string list"
  n_shame_count :: "32 word option"
  n_is_published :: "bool option"

definition tyrants_insert ::
  "session \<Rightarrow> store \<Rightarrow> uuid \<Rightarrow> tyrant_new \<Rightarrow> timestamptz \<Rightarrow> (pg_error + tyrant) \<times> store" where
  "tyrants_insert sess s new_id r now =
     (let NEW = \<lparr>t_id = new_id, t_name = n_name r, t_title = n_title r,
                 t_position = n_position r, t_category = n_category r,
                 t_description = n_description r, t_image_url = n_image_url r,
                 t_evidence_urls = n_evidence_urls r,
                 t_shame_count = (case n_shame_count r of None \<Rightarrow> 0 | Some n \<Rightarrow> sint n),
                 t_is_published = (case n_is_published r of None \<Rightarrow> False | Some b \<Rightarrow> b),
                 t_created_at = now, t_updated_at = now\<rparr> in
      if \<not> has_privilege s (s_role sess) Tyrants Insert then (Inl (InsufficientPrivilege ''tyrants''), s)
      else if \<not> tyrants_rls_insert sess NEW then (Inl (InsufficientPrivilege ''tyrants''), s)
      else if \<not> tyrants_description_check (n_description r)
        then (Inl (CheckViolation ''tyrants_description_check''), s)
      else if \<not> tyrants_name_check (n_name r) then (Inl (CheckViolation ''tyrants_name_check''), s)
      else if list_ex (\<lambda>t. t_id t = new_id) (tyrants s) then (Inl (UniqueViolation ''tyrants_pkey''), s)
      else (Inr NEW, s\<lparr>tyrants := tyrants s @ [NEW]\<rparr>))"

text \<open>
  Updating an entry by id: any of its columns but the key and the two timestamps may get
  a new value, the counter among them; \<open>updated_at\<close> is refreshed by the trigger.
\<close>

record tyrant_update =
  tu_name :: "string option"
  tu_title :: "string option"
  tu_position :: "string option"
  tu_category :: "tyrant_category option"
  tu_description :: "string option"
  tu_image_url :: "string option option"
  tu_evidence_urls :: "string list option"
  tu_shame_count :: "32 word option"
  tu_is_published :: "bool option"

definition apply_tyrant_update :: "tyrant_update \<Rightarrow> tyrant \<Rightarrow> tyrant" where
  "apply_tyrant_update u t =
     t\<lparr>t_name := (case tu_name u of None \<Rightarrow> t_name t | Some x \<Rightarrow> x),
       t_title := (case tu_title u of None \<Rightarrow> t_title t | Some x \<Rightarrow> x),
       t_position := (case tu_position u of None \<Rightarrow> t_position t | Some x \<Rightarrow> x),
       t_category := (case tu_category u of None \<Rightarrow> t_category t | Some x \<Rightarrow> x),
       t_description := (case tu_description u of None \<Rightarrow> t_description t | Some x \<Rightarrow> x),
       t_image_url := (case tu_image_url u of None \<Rightarrow> t_image_url t | Some x \<Rightarrow> x),
       t_evidence_urls := (case tu_evidence_urls u of None \<Rightarrow> t_evidence_urls t | Some x \<Rightarrow> x),
       t_shame_count := (case tu_shame_count u of None \<Rightarrow> t_shame_count t | Some n \<Rightarrow> sint n),
       t_is_published := (case tu_is_published u of None \<Rightarrow> t_is_published t | Some b \<Rightarrow> b)\<rparr>"

definition update_tyrant ::
  "session \<Rightarrow> store \<Rightarrow> uuid \<Rightarrow> tyrant_update \<Rightarrow> timestamptz \<Rightarrow> (pg_error + tyrant list) \<times> store" where
  "update_tyrant sess s tyrant_id u now =
     (let hit = (\<lambda>t. t_id t = tyrant_id \<and> tyrants_rls_modify sess t);
          new = (\<lambda>t. update_updated_at_column now (apply_tyrant_update u t));
          NEWs = map new (filter hit (tyrants s)) in
      if \<not> (has_privilege s (s_role sess) Tyrants Update \<and> has_privilege s (s_role sess) Tyrants Select)
        then (Inl (InsufficientPrivilege ''tyrants''), s)
      else if list_ex (\<lambda>t. \<not> tyrants_description_check (t_description t)) NEWs
        then (Inl (CheckViolation ''tyrants_description_check''), s)
      else if list_ex (\<lambda>t. \<not> tyrants_name_check (t_name t)) NEWs
        then (Inl (CheckViolation ''tyrants_name_check''), s)
      else (Inr NEWs, s\<lparr>tyrants := map (\<lambda>t. if hit t then new t else t) (tyrants s)\<rparr>))"

text \<open>
  Deleting an entry removes its votes too (\<open>ON DELETE CASCADE\<close>). The cascade runs with
  the rights of the owner of the tables, and so does the delete trigger of each cascaded
  vote, after the entry's row is gone.
\<close>

definition owner_session :: session where
  "owner_session = \<lparr>s_role = Postgres, s_bypassrls = False, s_jwt_admin = False\<rparr>"

definition tyrants_delete ::
  "session \<Rightarrow> store \<Rightarrow> uuid \<Rightarrow> timestamptz \<Rightarrow> (pg_error + tyrant list) \<times> store" where
  "tyrants_delete sess s tyrant_id now =
     (let hit = (\<lambda>t. t_id t = tyrant_id \<and> tyrants_rls_modify sess t);
          OLDs = filter hit (tyrants s);
          cascaded = filter (\<lambda>v. v_tyrant_id v = tyrant_id) (votes s) in
      if \<not> (has_privilege s (s_role sess) Tyrants Delete \<and> has_privilege s (s_role sess) Tyrants Select)
        then (Inl (InsufficientPrivilege ''tyrants''), s)
      else if OLDs = [] then (Inr [], s)
      else case run_triggers (decrement_shame_count owner_session now) cascaded
                  (s\<lparr>tyrants := filter (\<lambda>t. \<not> hit t) (tyrants s),
                     votes := filter (\<lambda>v. v_tyrant_id v \<noteq> tyrant_id) (votes s)\<rparr>) of
             Inl e \<Rightarrow> (Inl e, s)
           | Inr s' \<Rightarrow> (Inr OLDs, s'))"

subsection \<open>Stored functions\<close>

text \<open>
  An interval of \<open>n\<close> hours, in microseconds (\<open>(p_hours || ' hours')::INTERVAL\<close>), and
  the timestamps the engine can represent: from 24 November 4714 BC up to, and without,
  the year 294277. Subtracting an interval from a timestamp raises
  \<open>DatetimeFieldOverflow\<close> (timestamp out of range) when the result is none of them.
\<close>

definition hours :: "int \<Rightarrow> int" where
  "hours n = n * 3600000000"

definition MIN_TIMESTAMP :: timestamptz where
  "MIN_TIMESTAMP = - 211813488000000000"

definition END_TIMESTAMP :: timestamptz where
  "END_TIMESTAMP = 9223371331200000000"

definition timestamp_in_range :: "timestamptz \<Rightarrow> bool" where
  "timestamp_in_range t \<longleftrightarrow> MIN_TIMESTAMP \<le> t \<and> t < END_TIMESTAMP"

text \<open>
  \<open>has_voted\<close> selects the votes of the entry and fingerprint that are younger than the
  window and answers whether there is one. \<open>now\<close> is the clock's \<open>NOW()\<close>, and \<open>p_hours\<close>
  is an INTEGER (not null). The function is declared \<open>SECURITY DEFINER\<close>: it reads
  \<open>votes\<close> with the owner's rights, whoever calls it.
\<close>

definition has_voted :: "store \<Rightarrow> uuid \<Rightarrow> string \<Rightarrow> int \<Rightarrow> timestamptz \<Rightarrow> pg_error + bool" where
  "has_voted s p_tyrant_id p_ip_hash p_hours now =
     (if \<not> int4 p_hours then Inl NumericValueOutOfRange
      else if \<not> timestamp_in_range (now - hours p_hours) then Inl DatetimeFieldOverflow
      else Inr (filter (\<lambda>v. v_tyrant_id v = p_tyrant_id \<and> v_ip_hash v = p_ip_hash \<and>
                             v_created_at v > now - hours p_hours) (votes s) \<noteq> []))"

text \<open>
  The \<open>CREATE FUNCTION\<close> statements of the schema: name, parameter names, the parameters
  that have no default, the column names of \<open>RETURNS TABLE\<close>, whether the function
  returns \<open>TRIGGER\<close>, and whether it is declared \<open>SECURITY DEFINER\<close>.
\<close>

record create_function =
  f_name :: string
  f_params :: "string list"
  f_required :: "string list"
  f_returns_table :: "string list"
  f_returns_trigger :: bool
  f_security_definer :: bool

definition schema_create_functions :: "create_function list" where
  "schema_create_functions =
     [\<lparr>f_name = ''update_updated_at_column'', f_params = [], f_required = [],
        f_returns_table = [], f_returns_trigger = True, f_security_definer = False\<rparr>,
      \<lparr>f_name = ''increment_shame_count'', f_params = [], f_required = [],
        f_returns_table = [], f_returns_trigger = True, f_security_definer = False\<rparr>,
      \<lparr>f_name = ''decrement_shame_count'', f_params = [], f_required = [],
        f_returns_table = [], f_returns_trigger = True, f_security_definer = False\<rparr>,
      \<lparr>f_name = ''has_voted'', f_params = [''p_tyrant_id'', ''p_ip_hash'', ''p_hours''],
        f_required = [''p_tyrant_id'', ''p_ip_hash''],
        f_returns_table = [], f_returns_trigger = False, f_security_definer = True\<rparr>,
      \<lparr>f_name = ''get_published_tyrants'', f_params = [''p_category'', ''p_limit'', ''p_offset''],
        f_required = [],
        f_returns_table = [''id'', ''name'', ''title'', ''position'', ''category'', ''description'',
          ''image_url'', ''evidence_urls'', ''shame_count'', ''created_at''],
        f_returns_trigger = False, f_security_definer = True\<rparr>,
      \<lparr>f_name = ''get_pending_submissions_count'', f_params = [], f_required = [],
        f_returns_table = [], f_returns_trigger = False, f_security_definer = True\<rparr>]"

text \<open>
  The name of a parameter or of a column of \<open>RETURNS TABLE\<close> may be an identifier or a
  keyword that can name a type or a function. The keywords of the class that can name a
  column but not a function or a type are refused there, \<open>position\<close> among them, and
  a statement that the parser refuses creates nothing. (Reserved words are refused as
  well; none occurs in the schema's function headers.)
\<close>

definition col_name_keywords :: "string list" where
  "col_name_keywords =
     [''between'', ''bigint'', ''bit'', ''boolean'', ''char'', ''character'', ''coalesce'',
      ''dec'', ''decimal'', ''exists'', ''extract'', ''float'', ''greatest'', ''grouping'',
      ''inout'', ''int'', ''integer'', ''interval'', ''least'', ''national'', ''nchar'', ''none'',
      ''normalize'', ''nullif'', ''numeric'', ''out'', ''overlay'', ''position'', ''precision'',
      ''real'', ''row'', ''setof'', ''smallint'', ''substring'', ''time'', ''timestamp'', ''treat'',
      ''trim'', ''values'', ''varchar'', ''xmlattributes'', ''xmlconcat'', ''xmlelement'',
      ''xmlexists'', ''xmlforest'', ''xmlnamespaces'', ''xmlparse'', ''xmlpi'', ''xmlroot'',
      ''xmlserialize'', ''xmltable'']"

definition create_function_accepted :: "create_function \<Rightarrow> bool" where
  "create_function_accepted f \<longleftrightarrow>
     \<not> list_ex (\<lambda>n. n \<in> set col_name_keywords) (f_params f @ f_returns_table f)"

definition schema_functions :: "create_function list" where
  "schema_functions = filter create_function_accepted schema_create_functions"

definition function_exists :: "string \<Rightarrow> bool" where
  "function_exists fn \<longleftrightarrow> list_ex (\<lambda>f. f_name f = fn) schema_functions"

text \<open>
  The REST layer's \<open>rpc\<close> finds a function of the store by its name and the names of the
  arguments sent; a trigger function is not callable.
\<close>

definition rpc_resolve :: "string \<Rightarrow> string list \<Rightarrow> create_function option" where
  "rpc_resolve fn args =
     find (\<lambda>f. f_name f = fn \<and> \<not> f_returns_trigger f \<and>
               list_all (\<lambda>a. a \<in> set (f_params f)) args \<and>
               list_all (\<lambda>r. r \<in> set args) (f_required f)) schema_functions"

section \<open>The client\<close>

subsection \<open>The visitor fingerprint\<close>

text \<open>
  Numbers print in decimal, bytes in hexadecimal. \<open>number_toString\<close> is the printing of
  an integral Number below \<open>10^21\<close> in magnitude, which is plain decimal digits with a
  minus sign for a negative value.
\<close>

definition digit_char :: "nat \<Rightarrow> char" where
  "digit_char d = ''0123456789abcdef'' ! d"

fun to_radix :: "nat \<Rightarrow> nat \<Rightarrow> string" where
  "to_radix b n = (if b < 2 \<or> n < b then [digit_char n] else to_radix b (n div b) @ [digit_char (n mod b)])"

definition number_toString :: "int \<Rightarrow> string" where
  "number_toString n = (if n < 0 then CHR ''-'' # to_radix 10 (nat (- n)) else to_radix 10 (nat n))"

definition padStart :: "nat \<Rightarrow> char \<Rightarrow> string \<Rightarrow> string" where
  "padStart n c x = replicate (n - length x) c @ x"

text \<open>
  \<open>getIpHash\<close> asks a web service for the visitor's address and hashes it with SHA-256.
  The lookup and the digest are the browser's: \<open>hashArray\<close> is the digest's bytes when
  both went well and \<open>None\<close> when anything in the \<open>try\<close> block threw; \<open>date_now\<close> is
  \<open>Date.now()\<close>, the clock in milliseconds.
\<close>

definition getIpHash :: "8 word list option \<Rightarrow> int \<Rightarrow> string" where
  "getIpHash hashArray date_now =
     (case hashArray of
        Some bytes \<Rightarrow> concat (map (\<lambda>b. padStart 2 CHR ''0'' (to_radix 16 (unat b))) bytes)
      | None \<Rightarrow> ''anonymous-'' @ number_toString date_now)"

text \<open>
  The range of \<open>Date.now()\<close>: a time value is at most \<open>8.64 * 10^15\<close> milliseconds from
  the epoch in either direction.
\<close>

definition time_value :: "int \<Rightarrow> bool" where
  "time_value t \<longleftrightarrow> - 8640000000000000 \<le> t \<and> t \<le> 8640000000000000"

subsection \<open>Voting\<close>

text \<open>
  The client keeps the list of entries it fetched and the set of entries it knows the
  visitor has voted for. \<open>handleVote\<close> inserts the vote in the browser's session
  (\<open>sess\<close>: the role \<open>anon\<close>, or \<open>authenticated\<close> after a login); on an error it records
  a duplicate (code 23505) as voted and rethrows. After a successful insert it calls the
  stored function \<open>increment_shame_count\<close> with the argument \<open>tyrant_id\<close> through \<open>rpc\<close>,
  and when that call fails it bumps the counter of its own copy of the entry. The
  functions that \<open>rpc\<close> can resolve only read, so the call leaves the store as the insert
  left it.
\<close>

record client =
  c_tyrants :: "tyrant list"
  c_votedTyrants :: "uuid set"

definition handleVote ::
  "session \<Rightarrow> store \<Rightarrow> client \<Rightarrow> string \<Rightarrow> uuid \<Rightarrow> uuid \<Rightarrow> timestamptz \<Rightarrow>
     pg_error option \<times> store \<times> client" where
  "handleVote sess s c ipHash tyrantId new_id now =
     (case votes_insert sess s new_id tyrantId ipHash now of
        (Inl voteError, s') \<Rightarrow>
          (Some voteError, s',
           if sqlstate voteError = ''23505''
           then c\<lparr>c_votedTyrants := insert tyrantId (c_votedTyrants c)\<rparr> else c)
      | (Inr v, s') \<Rightarrow>
          (case rpc_resolve ''increment_shame_count'' [''tyrant_id''] of
             None \<Rightarrow>
               (None, s',
                c\<lparr>c_tyrants := map (\<lambda>t. if t_id t = tyrantId
                                        then t\<lparr>t_shame_count := t_shame_count t + 1\<rparr> else t)
                                  (c_tyrants c),
                  c_votedTyrants := insert tyrantId (c_votedTyrants c)\<rparr>)
           | Some f \<Rightarrow>
               (None, s', c\<lparr>c_votedTyrants := insert tyrantId (c_votedTyrants c)\<rparr>)))"

text \<open>
  \<open>fetchTyrants\<close> reads the table directly: the published rows, ordered by
  \<open>shame_count\<close> descending and by nothing else, so the order of rows with equal
  counters is the engine's choice. \<open>fetchTyrants s rows\<close> says that \<open>rows\<close> is a list the
  read can return. Every role may select the published rows. The category filter is
  applied to the fetched list in the browser.
\<close>

definition fetchTyrants :: "store \<Rightarrow> tyrant list \<Rightarrow> bool" where
  "fetchTyrants s rows \<longleftrightarrow>
     mset rows = mset (filter (\<lambda>t. t_is_published t = True) (tyrants s)) \<and>
     sorted_wrt (\<lambda>a b. t_shame_count a \<ge> t_shame_count b) rows"

definition filteredTyrants :: "tyrant_category option \<Rightarrow> tyrant list \<Rightarrow> tyrant list" where
  "filteredTyrants categoryFilter ts =
     (case categoryFilter of None \<Rightarrow> ts | Some c \<Rightarrow> filter (\<lambda>t. t_category t = c) ts)"

subsection \<open>The submission form\<close>

text \<open>
  Strings of the form are lists of characters below 256. \<open>is_space\<close> is the white space
  that \<open>trim\<close> strips and that \<open>\s\<close> matches in a regular expression, as far as it lies
  in that range: tab, line feed, vertical tab, form feed, carriage return, space and the
  no-break space.
\<close>

definition is_space :: "char \<Rightarrow> bool" where
  "is_space c \<longleftrightarrow> of_char c \<in> {9, 10, 11, 12, 13, 32, 160 :: nat}"

definition trim :: "string \<Rightarrow> string" where
  "trim x = rev (dropWhile is_space (rev (dropWhile is_space x)))"

text \<open>
  The test of \<open>/^[^\s@]+@[^\s@]+\.[^\s@]+$/\<close>: the string splits at an \<open>@\<close> and a later
  dot into three non-empty parts without white space or \<open>@\<close>.
\<close>

definition not_space_at :: "char \<Rightarrow> bool" where
  "not_space_at c \<longleftrightarrow> \<not> is_space c \<and> c \<noteq> CHR ''@''"

definition email_regex_test :: "string \<Rightarrow> bool" where
  "email_regex_test x =
     list_ex (\<lambda>i. list_ex (\<lambda>j.
        let a = take i x; b = take (j - (i + 1)) (drop (i + 1) x); c = drop (j + 1) x in
        x ! i = CHR ''@'' \<and> x ! j = CHR ''.'' \<and> a \<noteq> [] \<and> b \<noteq> [] \<and> c \<noteq> [] \<and>
        list_all not_space_at a \<and> list_all not_space_at b \<and> list_all not_space_at c)
        [i + 1 ..< length x]) [0 ..< length x]"

record FormData =
  fd_tyrant_name :: string
  fd_title_position :: string
  fd_category :: string
  fd_description :: string
  fd_evidence_url :: "string option"
  fd_reporter_email :: string
  fd_is_anonymous :: bool

text \<open>The option values of the category select (its placeholder has the empty value).\<close>

definition category_options :: "string list" where
  "category_options = [''Federal'', ''State'', ''Local'', ''Law Enforcement'']"

text \<open>
  \<open>validateField\<close> is only ever called with a string value; \<open>None\<close> is \<open>undefined\<close>, no
  error.
\<close>

definition validateField :: "string \<Rightarrow> string \<Rightarrow> string option" where
  "validateField name v =
     (if name = ''tyrant_name'' then
        (if v = [] \<or> trim v = [] then Some ''Tyrant name is required''
         else if length v > 100 then Some ''Name must be less than 100 characters''
         else None)
      else if name = ''title_position'' then
        (if v = [] \<or> trim v = [] then Some ''Title/Position is required''
         else if length v > 150 then Some ''Title must be less than 150 characters''
         else None)
      else if name = ''category'' then
        (if v = [] then Some ''Please select a category'' else None)
      else if name = ''description'' then
        (if v = [] \<or> trim v = [] then Some ''Description is required''
         else if length v < 20 then Some ''Description must be at least 20 characters''
         else if length v > 5000 then Some ''Description must be less than 5000 characters''
         else None)
      else if name = ''reporter_email'' then
        (if v \<noteq> [] \<and> \<not> email_regex_test v then Some ''Please enter a valid email address''
         else None)
      else None)"

definition validateForm :: "FormData \<Rightarrow> bool" where
  "validateForm formData =
     (let newErrors =
            [validateField ''tyrant_name'' (fd_tyrant_name formData),
             validateField ''title_position'' (fd_title_position formData),
             validateField ''category'' (fd_category formData),
             validateField ''description'' (fd_description formData)] @
            (if fd_reporter_email formData \<noteq> []
             then [validateField ''reporter_email'' (fd_reporter_email formData)] else [])
      in \<not> list_ex (\<lambda>error. error \<noteq> None) newErrors)"

record SubmissionInsert =
  si_tyrant_name :: string
  si_title_position :: string
  si_category :: string
  si_description :: string
  si_evidence_url :: "string option"
  si_reporter_email :: "string option"
  si_is_anonymous :: bool
  si_status :: string

text \<open>
  The record that \<open>handleSubmit\<close> builds from the form and the uploaded file's public
  address. \<open>x || null\<close> is null for the empty string.
\<close>

definition submission :: "FormData \<Rightarrow> string option \<Rightarrow> SubmissionInsert" where
  "submission formData evidenceUrl =
     \<lparr>si_tyrant_name = trim (fd_tyrant_name formData),
      si_title_position = trim (fd_title_position formData),
      si_category = fd_category formData,
      si_description = trim (fd_description formData),
      si_evidence_url = evidenceUrl,
      si_reporter_email =
        (if fd_is_anonymous formData then None
         else if trim (fd_reporter_email formData) = [] then None
         else Some (trim (fd_reporter_email formData))),
      si_is_anonymous = fd_is_anonymous formData,
      si_status = ''pending''\<rparr>"

text \<open>
  \<open>handleSubmit\<close> returns early when the form does not validate, and sends nothing when
  the upload of the selected file throws; otherwise it sends the record to be inserted
  into \<open>submissions\<close>.
\<close>

datatype upload = No_file | Uploaded string | Upload_failed

definition handleSubmit :: "FormData \<Rightarrow> upload \<Rightarrow> SubmissionInsert option" where
  "handleSubmit formData selectedFile =
     (if \<not> validateForm formData then None
      else case selectedFile of
             No_file \<Rightarrow> Some (submission formData None)
           | Uploaded publicUrl \<Rightarrow> Some (submission formData (Some publicUrl))
           | Upload_failed \<Rightarrow> None)"

section \<open>Reachable stores and the constraints on \<open>votes\<close>\<close>

text \<open>The live votes of an entry: the rows of \<open>votes\<close> that reference it.\<close>

definition live_votes :: "store \<Rightarrow> uuid \<Rightarrow> vote list" where
  "live_votes s e = filter (\<lambda>v. v_tyrant_id v = e) (votes s)"

definition counters_in_sync :: "store \<Rightarrow> bool" where
  "counters_in_sync s \<longleftrightarrow>
     list_all (\<lambda>t. t_shame_count t = int (length (live_votes s (t_id t)))) (tyrants s)"

definition votes_pkey :: "store \<Rightarrow> bool" where
  "votes_pkey s \<longleftrightarrow> distinct (map v_id (votes s))"

definition idx_votes_tyrant_ip_unique :: "store \<Rightarrow> bool" where
  "idx_votes_tyrant_ip_unique s \<longleftrightarrow> distinct (map (\<lambda>v. (v_tyrant_id v, v_ip_hash v)) (votes s))"

definition votes_ip_hash_checked :: "store \<Rightarrow> bool" where
  "votes_ip_hash_checked s \<longleftrightarrow> list_all (\<lambda>v. votes_ip_hash_check (v_ip_hash v)) (votes s)"

definition store_ok :: "store \<Rightarrow> bool" where
  "store_ok s \<longleftrightarrow> votes_ip_hash_checked s \<and> votes_pkey s \<and> idx_votes_tyrant_ip_unique s"

text \<open>
  The stores that statements can reach from the empty tables the schema creates,
  whatever further grants the database holds: every insert, update and delete of a row
  of \<open>tyrants\<close> or \<open>votes\<close>, in any session, and the client's \<open>handleVote\<close>.
\<close>

inductive reachable :: "store \<Rightarrow> bool" where
  init: "reachable \<lparr>tyrants = [], votes = [], extra_grants = g\<rparr>"
| entry_created: "reachable s \<Longrightarrow> reachable (snd (tyrants_insert sess s new_id r now))"
| entry_updated: "reachable s \<Longrightarrow> reachable (snd (update_tyrant sess s tyrant_id tu now))"
| entry_deleted: "reachable s \<Longrightarrow> reachable (snd (tyrants_delete sess s tyrant_id now))"
| vote_cast: "reachable s \<Longrightarrow> reachable (snd (votes_insert sess s new_id tyrant_id ip_hash now))"
| vote_updated: "reachable s \<Longrightarrow> reachable (snd (update_vote sess s vote_id vu))"
| vote_revoked: "reachable s \<Longrightarrow> reachable (snd (votes_delete sess s vote_id now))"
| client_vote: "reachable s \<Longrightarrow> reachable (fst (snd (handleVote sess s c ipHash tyrantId new_id now)))"

subsection \<open>Sessions and a scenario\<close>

text \<open>
  A visitor's session, and the session of the service role on a platform that lets it
  bypass row level security. The scenario: the service creates the published entry
  \<open>E1\<close> with the default counter 0 (\<open>scenario_0\<close>) and then inserts a vote from the
  fingerprint of 64 letters \<open>a\<close> (\<open>scenario_1\<close>). \<open>scenario_0_anon_update\<close> is
  \<open>scenario_0\<close> in a database that also grants \<open>UPDATE\<close> on \<open>tyrants\<close> to \<open>anon\<close>,
  \<open>scenario_uncounted\<close> is that database with the vote stored and the counter still 0,
  and \<open>client_0\<close> is a browser that has fetched \<open>E1\<close> with counter 0.
  \<open>out_of_sync\<close> holds a live vote while the counter of its entry is 0, and
  \<open>at_int4_min\<close> holds one while the counter is the least INTEGER.
\<close>

definition anon_session :: session where
  "anon_session = \<lparr>s_role = Anon, s_bypassrls = False, s_jwt_admin = False\<rparr>"

definition service_session :: session where
  "service_session = \<lparr>s_role = Service_role, s_bypassrls = True, s_jwt_admin = False\<rparr>"

definition fingerprint_a :: string where
  "fingerprint_a = replicate 64 CHR ''a''"

definition fingerprint_b :: string where
  "fingerprint_b = replicate 64 CHR ''b''"

definition entry_E1 :: tyrant_new where
  "entry_E1 = \<lparr>n_name = ''E1'', n_title = ''Mayor'', n_position = ''City hall'',
     n_category = State, n_description = ''Abuse of office'', n_image_url = None,
     n_evidence_urls = [], n_shame_count = None, n_is_published = Some True\<rparr>"

definition scenario_0 :: store where
  "scenario_0 = snd (tyrants_insert service_session empty_store ''E1'' entry_E1 1)"

definition scenario_1 :: store where
  "scenario_1 = snd (votes_insert service_session scenario_0 ''V1'' ''E1'' fingerprint_a 2)"

definition vote_V1 :: vote where
  "vote_V1 = \<lparr>v_id = ''V1'', v_tyrant_id = ''E1'', v_ip_hash = fingerprint_a, v_created_at = 2\<rparr>"

definition tyrant_E1 :: "int \<Rightarrow> timestamptz \<Rightarrow> tyrant" where
  "tyrant_E1 n u = \<lparr>t_id = ''E1'', t_name = ''E1'', t_title = ''Mayor'', t_position = ''City hall'',
     t_category = State, t_description = ''Abuse of office'', t_image_url = None,
     t_evidence_urls = [], t_shame_count = n, t_is_published = True, t_created_at = 1,
     t_updated_at = u\<rparr>"

definition scenario_0_anon_update :: store where
  "scenario_0_anon_update = scenario_0\<lparr>extra_grants := [(Anon, Tyrants, Update)]\<rparr>"

definition client_0 :: client where
  "client_0 = \<lparr>c_tyrants = [tyrant_E1 0 1], c_votedTyrants = {}\<rparr>"

definition scenario_uncounted :: store where
  "scenario_uncounted =
     \<lparr>tyrants = [tyrant_E1 0 1], votes = [vote_V1], extra_grants = [(Anon, Tyrants, Update)]\<rparr>"

definition out_of_sync :: store where
  "out_of_sync = \<lparr>tyrants = [tyrant_E1 0 1], votes = [vote_V1], extra_grants = []\<rparr>"

definition at_int4_min :: store where
  "at_int4_min = \<lparr>tyrants = [tyrant_E1 (- 2147483648) 1], votes = [vote_V1], extra_grants = []\<rparr>"

text \<open>
  More of the scenario: \<open>entry_bad\<close> fails both check constraints of \<open>tyrants\<close>,
  \<open>at_int4_max\<close> holds \<open>E1\<close> with the greatest INTEGER as its counter, and \<open>scenario_2\<close> is
  \<open>scenario_1\<close> after the service has inserted a second vote, from the fingerprint of 64
  letters \<open>b\<close>. \<open>no_update\<close> and \<open>no_vote_update\<close> are \<open>SET\<close> lists that assign no column.
\<close>

definition entry_bad :: tyrant_new where
  "entry_bad = entry_E1\<lparr>n_name := ''X'', n_description := ''short''\<rparr>"

definition at_int4_max :: store where
  "at_int4_max = \<lparr>tyrants = [tyrant_E1 2147483647 1], votes = [], extra_grants = []\<rparr>"

definition vote_V2 :: vote where
  "vote_V2 = \<lparr>v_id = ''V2'', v_tyrant_id = ''E1'', v_ip_hash = fingerprint_b, v_created_at = 3\<rparr>"

definition scenario_2 :: store where
  "scenario_2 = snd (votes_insert service_session scenario_1 ''V2'' ''E1'' fingerprint_b 3)"

definition no_update :: tyrant_update where
  "no_update = \<lparr>tu_name = None, tu_title = None, tu_position = None, tu_category = None,
     tu_description = None, tu_image_url = None, tu_evidence_urls = None, tu_shame_count = None,
     tu_is_published = None\<rparr>"

definition no_vote_update :: vote_update where
  "no_vote_update = \<lparr>vu_id = None, vu_tyrant_id = None, vu_ip_hash = None, vu_created_at = None\<rparr>"

text \<open>The first instant of the year 2026 on the store's clock.\<close>

definition clock_2026 :: timestamptz where
  "clock_2026 = 820540800000000"

subsection \<open>Fingerprint formats\<close>

text \<open>
  The format the spec gives for a fingerprint is 64 hexadecimal characters. The schema
  declares no such predicate: its check on \<open>ip_hash\<close> is \<open>votes_ip_hash_check\<close>, the
  length alone. \<open>sha256_hex_format\<close> is stated to compare the two.
\<close>

definition hex_char :: "char \<Rightarrow> bool" where
  "hex_char c \<longleftrightarrow> c \<in> set ''0123456789abcdefABCDEF''"

definition sha256_hex_format :: "string \<Rightarrow> bool" where
  "sha256_hex_format f \<longleftrightarrow> length f = 64 \<and> list_all hex_char f"

definition fingerprint_z :: string where
  "fingerprint_z = replicate 64 CHR ''z''"

subsection \<open>A table to list\<close>

text \<open>
  Five entries: four of category \<open>state\<close>, one of them unpublished, and one of category
  \<open>federal\<close>. \<open>B\<close> and \<open>E\<close> have the same counter, and \<open>E\<close> is the more recent.
  \<open>shame_created_desc a b\<close>: row \<open>a\<close> may stand before row \<open>b\<close> in a listing by
  \<open>shame_count\<close> descending, then \<open>created_at\<close> descending.
\<close>

definition shame_created_desc :: "tyrant \<Rightarrow> tyrant \<Rightarrow> bool" where
  "shame_created_desc a b \<longleftrightarrow>
     t_shame_count a > t_shame_count b \<or>
     (t_shame_count a = t_shame_count b \<and> t_created_at a \<ge> t_created_at b)"

definition mk_tyrant :: "uuid \<Rightarrow> tyrant_category \<Rightarrow> int \<Rightarrow> bool \<Rightarrow> timestamptz \<Rightarrow> tyrant" where
  "mk_tyrant i c n p created = \<lparr>t_id = i, t_name = i, t_title = ''Mayor'', t_position = ''City hall'',
     t_category = c, t_description = ''Abuse of office'', t_image_url = None,
     t_evidence_urls = [], t_shame_count = n, t_is_published = p, t_created_at = created,
     t_updated_at = created\<rparr>"

definition listing_store :: store where
  "listing_store = \<lparr>tyrants =
      [mk_tyrant ''A'' State 1 True 1, mk_tyrant ''B'' State 3 True 2,
       mk_tyrant ''C'' Federal 5 True 3, mk_tyrant ''D'' State 9 False 4,
       mk_tyrant ''E'' State 3 True 5], votes = [], extra_grants = []\<rparr>"

subsection \<open>Two filled-in forms\<close>

text \<open>
  A valid anonymous form with the category option \<open>Federal\<close> selected, and the same form
  with an address typed into the email field.
\<close>

definition form_federal :: FormData where
  "form_federal = \<lparr>fd_tyrant_name = ''John Doe'', fd_title_position = ''Senator'',
     fd_category = ''Federal'', fd_description = ''Abused the powers of the office.'',
     fd_evidence_url = None, fd_reporter_email = '''', fd_is_anonymous = True\<rparr>"

definition form_typed_email :: FormData where
  "form_typed_email = form_federal\<lparr>fd_reporter_email := ''jane@example.org''\<rparr>"

section \<open>Facts about the store\<close>

subsection \<open>Privileges and policies\<close>

lemma has_privilege_votes_insert [simp]: "has_privilege s r Votes Insert"
  by (cases r) (simp_all add: has_privilege_def schema_grants_def)

lemma has_privilege_select [simp]: "has_privilege s r tbl Select"
  by (cases r; cases tbl) (simp_all add: has_privilege_def schema_grants_def)

lemma votes_rls_insert [simp]: "votes_rls_insert sess NEW"
  by (simp add: votes_rls_insert_def votes_public_insert_def)

lemma tyrants_rls_modify_iff: "tyrants_rls_modify sess t \<longleftrightarrow> bypass_rls sess \<or> s_jwt_admin sess"
  by (auto simp: tyrants_rls_modify_def tyrants_admin_all_def)

lemma has_privilege_cong:
  "extra_grants s' = extra_grants s \<Longrightarrow> has_privilege s' r tbl p = has_privilege s r tbl p"
  by (simp add: has_privilege_def)

lemma counter_triggers_run_as_invoker:
  "map (\<lambda>f. (f_name f, f_security_definer f)) schema_create_functions =
     [(''update_updated_at_column'', False), (''increment_shame_count'', False),
      (''decrement_shame_count'', False), (''has_voted'', True),
      (''get_published_tyrants'', True), (''get_pending_submissions_count'', True)]"
  by (simp add: schema_create_functions_def)

lemmas session_simps = anon_session_def service_session_def owner_session_def bypass_rls_def
  tyrants_rls_modify_def tyrants_rls_insert_def tyrants_admin_all_def tyrants_public_read_def
  votes_rls_modify_def has_privilege_def schema_grants_def

subsection \<open>What a statement does to \<open>votes\<close>\<close>

lemma increment_keeps_votes:
  "increment_shame_count sess now v s = Inr s' \<Longrightarrow> votes s' = votes s \<and> extra_grants s' = extra_grants s"
  by (auto simp: increment_shame_count_def Let_def split: if_splits)

lemma decrement_keeps_votes:
  "decrement_shame_count sess now v s = Inr s' \<Longrightarrow> votes s' = votes s \<and> extra_grants s' = extra_grants s"
  by (auto simp: decrement_shame_count_def Let_def split: if_splits)

lemma run_triggers_keeps_votes:
  "run_triggers (decrement_shame_count sess now) vs s = Inr s' \<Longrightarrow>
     votes s' = votes s \<and> extra_grants s' = extra_grants s"
proof (induction vs arbitrary: s)
  case Nil
  then show ?case by simp
next
  case (Cons v vs)
  then show ?case
    by (auto split: sum.splits dest: decrement_keeps_votes)
qed

lemma votes_after_insert:
  "votes (snd (votes_insert sess s new_id e f now)) = votes s \<or>
   (votes (snd (votes_insert sess s new_id e f now)) =
      votes s @ [\<lparr>v_id = new_id, v_tyrant_id = e, v_ip_hash = f, v_created_at = now\<rparr>]
    \<and> votes_ip_hash_check f \<and> new_id \<notin> v_id ` set (votes s)
    \<and> (e, f) \<notin> (\<lambda>v. (v_tyrant_id v, v_ip_hash v)) ` set (votes s))"
  by (auto simp: votes_insert_def Let_def list_ex_iff split: sum.splits dest!: increment_keeps_votes)

lemma votes_after_delete:
  "votes (snd (votes_delete sess s vote_id now)) = votes s \<or>
   votes (snd (votes_delete sess s vote_id now)) =
     filter (\<lambda>v. \<not> (v_id v = vote_id \<and> votes_rls_modify sess v)) (votes s)"
  by (auto simp: votes_delete_def Let_def split: sum.splits dest!: run_triggers_keeps_votes)

lemma votes_after_tyrants_delete:
  "votes (snd (tyrants_delete sess s e now)) = votes s \<or>
   votes (snd (tyrants_delete sess s e now)) = filter (\<lambda>v. v_tyrant_id v \<noteq> e) (votes s)"
  by (auto simp: tyrants_delete_def Let_def split: sum.splits dest!: run_triggers_keeps_votes)

lemma votes_after_tyrants_insert: "votes (snd (tyrants_insert sess s new_id r now)) = votes s"
  by (simp add: tyrants_insert_def Let_def)

lemma votes_after_update_tyrant: "votes (snd (update_tyrant sess s e u now)) = votes s"
  by (simp add: update_tyrant_def Let_def)

subsection \<open>Every statement preserves the constraints on \<open>votes\<close>\<close>

lemma store_ok_after_update_vote: "store_ok s \<Longrightarrow> store_ok (snd (update_vote sess s vote_id u))"
  by (auto simp: update_vote_def Let_def store_ok_def votes_ip_hash_checked_def votes_pkey_def
      idx_votes_tyrant_ip_unique_def list_all_iff list_ex_iff)

lemma filter_key_distinct:
  "distinct (map f xs) \<Longrightarrow> x \<in> set xs \<Longrightarrow> filter (\<lambda>y. f y = f x) xs = [x]"
proof (induction xs)
  case Nil
  then show ?case by simp
next
  case (Cons a xs)
  show ?case
  proof (cases "a = x")
    case True
    with Cons.prems have "\<forall>y\<in>set xs. f y \<noteq> f x"
      by (metis distinct.simps(2) imageI list.simps(9) set_map)
    then have "filter (\<lambda>y. f y = f x) xs = []" by (simp add: filter_empty_conv)
    with True show ?thesis by simp
  next
    case False
    with Cons.prems have "x \<in> set xs" "f a \<noteq> f x" by auto
    with Cons show ?thesis by simp
  qed
qed

lemma filter_key_absent:
  "k \<notin> f ` set xs \<Longrightarrow> filter (\<lambda>y. f y = k) xs = []"
  by (auto simp: filter_empty_conv)

lemma length_filter_key_le_1:
  assumes "distinct (map f xs)"
  shows "length (filter (\<lambda>y. f y = k) xs) \<le> 1"
proof (cases "k \<in> f ` set xs")
  case False
  then show ?thesis by (simp add: filter_key_absent)
next
  case True
  then obtain x where x: "x \<in> set xs" "f x = k" by auto
  from assms x(1) have "filter (\<lambda>y. f y = f x) xs = [x]" by (rule filter_key_distinct)
  with x(2) show ?thesis by simp
qed

lemma store_ok_filter:
  "store_ok s \<Longrightarrow> votes s' = filter P (votes s) \<Longrightarrow> store_ok s'"
  by (auto simp: store_ok_def votes_ip_hash_checked_def votes_pkey_def
      idx_votes_tyrant_ip_unique_def list_all_iff distinct_map_filter)

lemma store_ok_same_votes:
  "store_ok s \<Longrightarrow> votes s' = votes s \<Longrightarrow> store_ok s'"
  by (simp add: store_ok_def votes_ip_hash_checked_def votes_pkey_def idx_votes_tyrant_ip_unique_def)

lemma store_ok_after_votes_insert:
  assumes "store_ok s"
  shows "store_ok (snd (votes_insert sess s new_id e f now))"
  using votes_after_insert [of sess s new_id e f now]
proof
  assume "votes (snd (votes_insert sess s new_id e f now)) = votes s"
  with assms show ?thesis by (rule store_ok_same_votes)
next
  assume "votes (snd (votes_insert sess s new_id e f now)) =
      votes s @ [\<lparr>v_id = new_id, v_tyrant_id = e, v_ip_hash = f, v_created_at = now\<rparr>]
    \<and> votes_ip_hash_check f \<and> new_id \<notin> v_id ` set (votes s)
    \<and> (e, f) \<notin> (\<lambda>v. (v_tyrant_id v, v_ip_hash v)) ` set (votes s)"
  with assms show ?thesis
    by (simp add: store_ok_def votes_ip_hash_checked_def votes_pkey_def
        idx_votes_tyrant_ip_unique_def)
qed

lemma store_ok_after_votes_delete:
  "store_ok s \<Longrightarrow> store_ok (snd (votes_delete sess s vote_id now))"
  using votes_after_delete [of sess s vote_id now]
  by (auto intro: store_ok_same_votes store_ok_filter)

lemma store_ok_after_tyrants_delete:
  "store_ok s \<Longrightarrow> store_ok (snd (tyrants_delete sess s e now))"
  using votes_after_tyrants_delete [of sess s e now]
  by (auto intro: store_ok_same_votes store_ok_filter)

lemma store_ok_after_tyrants_insert:
  "store_ok s \<Longrightarrow> store_ok (snd (tyrants_insert sess s new_id r now))"
  by (rule store_ok_same_votes) (simp_all add: votes_after_tyrants_insert)

lemma store_ok_after_update_tyrant:
  "store_ok s \<Longrightarrow> store_ok (snd (update_tyrant sess s e u now))"
  by (rule store_ok_same_votes) (simp_all add: votes_after_update_tyrant)

lemma rpc_increment_shame_count_unresolved:
  "rpc_resolve ''increment_shame_count'' [''tyrant_id''] = None"
  by (simp add: rpc_resolve_def schema_functions_def schema_create_functions_def
      create_function_accepted_def col_name_keywords_def)

lemma handleVote_store:
  "fst (snd (handleVote sess s c ipHash tyrantId new_id now)) =
     snd (votes_insert sess s new_id tyrantId ipHash now)"
  by (simp add: handleVote_def split: prod.splits sum.splits option.splits)

lemma reachable_store_ok: "reachable s \<Longrightarrow> store_ok s"
proof (induction rule: reachable.induct)
  case (init g)
  show ?case
    by (simp add: store_ok_def votes_ip_hash_checked_def votes_pkey_def
        idx_votes_tyrant_ip_unique_def)
next
  case (entry_created s sess new_id r now)
  then show ?case by (simp add: store_ok_after_tyrants_insert)
next
  case (entry_updated s sess tyrant_id tu now)
  then show ?case by (simp add: store_ok_after_update_tyrant)
next
  case (entry_deleted s sess tyrant_id now)
  then show ?case by (simp add: store_ok_after_tyrants_delete)
next
  case (vote_cast s sess new_id tyrant_id ip_hash now)
  then show ?case by (simp add: store_ok_after_votes_insert)
next
  case (vote_updated s sess vote_id vu)
  then show ?case by (simp add: store_ok_after_update_vote)
next
  case (vote_revoked s sess vote_id now)
  then show ?case by (simp add: store_ok_after_votes_delete)
next
  case (client_vote s sess c ipHash tyrantId new_id now)
  then show ?case by (simp add: handleVote_store store_ok_after_votes_insert)
qed

lemma votes_insert_duplicate:
  assumes "votes_ip_hash_checked s" "v \<in> set (votes s)" "v_tyrant_id v = E" "v_ip_hash v = F"
  shows "votes_insert sess s new_id E F now =
           (Inl (UniqueViolation (if new_id \<in> v_id ` set (votes s)
                                  then ''votes_pkey'' else ''idx_votes_tyrant_ip_unique'')), s)"
proof -
  from assms have "votes_ip_hash_check F"
    by (auto simp: votes_ip_hash_checked_def list_all_iff)
  moreover from assms have "list_ex (\<lambda>y. v_tyrant_id y = E \<and> v_ip_hash y = F) (votes s)"
    by (auto simp: list_ex_iff)
  ultimately show ?thesis
    by (auto simp: votes_insert_def Let_def list_ex_iff)
qed

lemma votes_insert_check_violation:
  "length f \<noteq> 64 \<Longrightarrow>
     votes_insert sess s new_id e f now = (Inl (CheckViolation ''votes_ip_hash_check''), s)"
  by (simp add: votes_insert_def votes_ip_hash_check_def)

lemma increment_never_check_violation:
  "increment_shame_count sess now v s \<noteq> Inl (CheckViolation k)"
  by (simp add: increment_shame_count_def Let_def)

lemma votes_insert_no_check_violation:
  "length f = 64 \<Longrightarrow> fst (votes_insert sess s new_id e f now) \<noteq> Inl (CheckViolation k)"
  using increment_never_check_violation
  by (auto simp: votes_insert_def votes_ip_hash_check_def Let_def split: sum.splits)

subsection \<open>Deleting a vote\<close>

lemma votes_delete_absent:
  assumes "has_privilege s (s_role sess) Votes Delete" "vote_id \<notin> v_id ` set (votes s)"
  shows "votes_delete sess s vote_id now = (Inr [], s)"
proof -
  from assms(2) have "filter (\<lambda>v. v_id v = vote_id \<and> votes_rls_modify sess v) (votes s) = []"
    by (auto simp: filter_empty_conv)
  moreover from assms(2) have
    "filter (\<lambda>v. \<not> (v_id v = vote_id \<and> votes_rls_modify sess v)) (votes s) = votes s"
    by (auto simp: filter_id_conv)
  ultimately show ?thesis using assms(1) by (simp add: votes_delete_def Let_def)
qed

lemma decrement_shame_count_privileged:
  assumes "has_privilege s (s_role sess) Tyrants Update" "bypass_rls sess"
    and "\<forall>t\<in>set (tyrants s). t_id t = v_tyrant_id v \<longrightarrow> int4 (t_shame_count t - 1)"
  shows "decrement_shame_count sess now v s =
     Inr (s\<lparr>tyrants := map (\<lambda>t. if t_id t = v_tyrant_id v
               then update_updated_at_column now (t\<lparr>t_shame_count := max (t_shame_count t - 1) 0\<rparr>)
               else t) (tyrants s)\<rparr>)"
  using assms
  by (auto simp: decrement_shame_count_def Let_def tyrants_rls_modify_def list_ex_iff)

lemma votes_delete_present:
  assumes "votes_pkey s" "v \<in> set (votes s)"
    and "has_privilege s (s_role sess) Votes Delete"
    and "has_privilege s (s_role sess) Tyrants Update" "bypass_rls sess"
    and "\<forall>t\<in>set (tyrants s). t_id t = v_tyrant_id v \<longrightarrow> int4 (t_shame_count t - 1)"
  shows "votes_delete sess s (v_id v) now =
     (Inr [v], s\<lparr>votes := filter (\<lambda>y. v_id y \<noteq> v_id v) (votes s),
                 tyrants := map (\<lambda>t. if t_id t = v_tyrant_id v
                    then update_updated_at_column now (t\<lparr>t_shame_count := max (t_shame_count t - 1) 0\<rparr>)
                    else t) (tyrants s)\<rparr>)"
proof -
  have hit: "(\<lambda>y. v_id y = v_id v \<and> votes_rls_modify sess y) = (\<lambda>y. v_id y = v_id v)"
    using assms(5) by (simp add: votes_rls_modify_def)
  from assms(1,2) have olds: "filter (\<lambda>y. v_id y = v_id v) (votes s) = [v]"
    unfolding votes_pkey_def by (rule filter_key_distinct)
  let ?s0 = "s\<lparr>votes := filter (\<lambda>y. v_id y \<noteq> v_id v) (votes s)\<rparr>"
  have "decrement_shame_count sess now v ?s0 =
     Inr (?s0\<lparr>tyrants := map (\<lambda>t. if t_id t = v_tyrant_id v
               then update_updated_at_column now (t\<lparr>t_shame_count := max (t_shame_count t - 1) 0\<rparr>)
               else t) (tyrants ?s0)\<rparr>)"
    using assms(4,5,6) by (intro decrement_shame_count_privileged) (simp_all add: has_privilege_def)
  then show ?thesis
    using assms(3) by (simp add: votes_delete_def Let_def hit olds)
qed

lemma shame_count_after_decrement:
  "map t_shame_count (map (\<lambda>t. if t_id t = e
       then update_updated_at_column now (t\<lparr>t_shame_count := max (t_shame_count t - 1) 0\<rparr>)
       else t) ts) =
   map (\<lambda>t. if t_id t = e then max (t_shame_count t - 1) 0 else t_shame_count t) ts"
  by (induction ts) (auto simp: update_updated_at_column_def)

lemma t_id_after_decrement:
  "map t_id (map (\<lambda>t. if t_id t = e
       then update_updated_at_column now (t\<lparr>t_shame_count := max (t_shame_count t - 1) 0\<rparr>)
       else t) ts) = map t_id ts"
  by (induction ts) (auto simp: update_updated_at_column_def)

subsection \<open>The scenario, evaluated\<close>

lemma scenario_0_eq: "scenario_0 = \<lparr>tyrants = [tyrant_E1 0 1], votes = [], extra_grants = []\<rparr>"
  by (simp add: scenario_0_def tyrants_insert_def empty_store_def entry_E1_def tyrant_E1_def
      tyrants_name_check_def tyrants_description_check_def Let_def session_simps)

lemma scenario_1_eq:
  "scenario_1 = \<lparr>tyrants = [tyrant_E1 1 2], votes = [vote_V1], extra_grants = []\<rparr>"
  by (simp add: scenario_1_def scenario_0_eq votes_insert_def votes_ip_hash_check_def
      fingerprint_a_def tyrant_E1_def vote_V1_def increment_shame_count_def
      update_updated_at_column_def Let_def session_simps int4_def)

lemma reachable_scenario_1: "reachable scenario_1"
  unfolding scenario_1_def scenario_0_def empty_store_def by (intro reachable.intros)

lemma votes_delete_at_int4_min:
  "votes_delete service_session at_int4_min ''V1'' 4 = (Inl NumericValueOutOfRange, at_int4_min)"
  by (simp add: votes_delete_def at_int4_min_def vote_V1_def tyrant_E1_def decrement_shame_count_def
      Let_def session_simps int4_def)

lemma votes_delete_by_visitor:
  "votes_delete anon_session scenario_1 ''V1'' 4 = (Inl (InsufficientPrivilege ''votes''), scenario_1)"
  by (simp add: votes_delete_def scenario_1_eq Let_def session_simps)

lemma scenario_0_anon_update_eq:
  "scenario_0_anon_update =
     \<lparr>tyrants = [tyrant_E1 0 1], votes = [], extra_grants = [(Anon, Tyrants, Update)]\<rparr>"
  by (simp add: scenario_0_anon_update_def scenario_0_eq)

lemma reachable_scenario_uncounted: "reachable scenario_uncounted"
proof -
  let ?s0 = "\<lparr>tyrants = [], votes = [], extra_grants = [(Anon, Tyrants, Update)]\<rparr>"
  have "reachable (snd (votes_insert anon_session
          (snd (tyrants_insert service_session ?s0 ''E1'' entry_E1 1)) ''V1'' ''E1'' fingerprint_a 2))"
    by (intro reachable.intros)
  moreover have "snd (tyrants_insert service_session ?s0 ''E1'' entry_E1 1) = scenario_0_anon_update"
    by (simp add: scenario_0_anon_update_eq tyrants_insert_def entry_E1_def tyrant_E1_def
        tyrants_name_check_def tyrants_description_check_def Let_def session_simps)
  moreover have "snd (votes_insert anon_session scenario_0_anon_update ''V1'' ''E1'' fingerprint_a 2)
      = scenario_uncounted"
    by (simp add: scenario_0_anon_update_eq scenario_uncounted_def votes_insert_def
        votes_ip_hash_check_def fingerprint_a_def tyrant_E1_def vote_V1_def increment_shame_count_def
        Let_def session_simps int4_def)
  ultimately show ?thesis by simp
qed

lemma privileged_vote_is_counted:
  "votes_insert service_session scenario_0 ''V1'' ''E1'' fingerprint_a 2 = (Inr vote_V1, scenario_1)
   \<and> counters_in_sync scenario_1"
  by (simp add: scenario_1_eq scenario_0_eq votes_insert_def votes_ip_hash_check_def
      fingerprint_a_def tyrant_E1_def vote_V1_def increment_shame_count_def
      update_updated_at_column_def Let_def session_simps int4_def counters_in_sync_def live_votes_def)

subsection \<open>Each statement, evaluated\<close>

lemma scenario_2_eq:
  "scenario_2 = \<lparr>tyrants = [tyrant_E1 2 3], votes = [vote_V1, vote_V2], extra_grants = []\<rparr>"
  by (simp add: scenario_2_def scenario_1_eq votes_insert_def votes_ip_hash_check_def
      fingerprint_a_def fingerprint_b_def tyrant_E1_def vote_V1_def vote_V2_def
      increment_shame_count_def update_updated_at_column_def Let_def session_simps int4_def)

lemma tyrants_insert_reports_description_check_first:
  "tyrants_insert service_session empty_store ''X'' entry_bad 1 =
     (Inl (CheckViolation ''tyrants_description_check''), empty_store)"
  by (simp add: tyrants_insert_def entry_bad_def entry_E1_def tyrants_description_check_def
      Let_def session_simps empty_store_def)

lemma tyrants_insert_by_visitor:
  "tyrants_insert anon_session empty_store ''E1'' entry_E1 1 =
     (Inl (InsufficientPrivilege ''tyrants''), empty_store)"
  by (simp add: tyrants_insert_def Let_def session_simps empty_store_def)

lemma tyrants_insert_with_counter:
  "tyrants_insert service_session empty_store ''E1'' (entry_E1\<lparr>n_shame_count := Some 41\<rparr>) 1 =
     (Inr (tyrant_E1 41 1), \<lparr>tyrants = [tyrant_E1 41 1], votes = [], extra_grants = []\<rparr>)"
  by (simp add: tyrants_insert_def entry_E1_def tyrant_E1_def tyrants_name_check_def
      tyrants_description_check_def Let_def session_simps empty_store_def)

lemma votes_insert_at_int4_max:
  "votes_insert service_session at_int4_max ''V1'' ''E1'' fingerprint_a 2 =
     (Inl NumericValueOutOfRange, at_int4_max)"
  by (simp add: votes_insert_def at_int4_max_def votes_ip_hash_check_def fingerprint_a_def
      tyrant_E1_def increment_shame_count_def Let_def session_simps int4_def)

lemma update_tyrant_sets_counter:
  "update_tyrant service_session scenario_1 ''E1'' (no_update\<lparr>tu_shame_count := Some 7\<rparr>) 5 =
     (Inr [tyrant_E1 7 5], \<lparr>tyrants = [tyrant_E1 7 5], votes = [vote_V1], extra_grants = []\<rparr>)
   \<and> \<not> counters_in_sync \<lparr>tyrants = [tyrant_E1 7 5], votes = [vote_V1], extra_grants = []\<rparr>"
  by (simp add: update_tyrant_def scenario_1_eq no_update_def apply_tyrant_update_def tyrant_E1_def
      update_updated_at_column_def tyrants_name_check_def tyrants_description_check_def Let_def
      session_simps counters_in_sync_def live_votes_def vote_V1_def)

lemma update_tyrant_by_visitor:
  "update_tyrant anon_session scenario_1 ''E1'' (no_update\<lparr>tu_shame_count := Some 7\<rparr>) 5 =
     (Inl (InsufficientPrivilege ''tyrants''), scenario_1)"
  by (simp add: update_tyrant_def Let_def session_simps scenario_1_eq)

lemma update_vote_keeps_pair_unique:
  "update_vote service_session scenario_2 ''V2'' (no_vote_update\<lparr>vu_ip_hash := Some fingerprint_a\<rparr>) =
     (Inl (UniqueViolation ''idx_votes_tyrant_ip_unique''), scenario_2)"
  by (simp add: update_vote_def scenario_2_eq no_vote_update_def apply_vote_update_def vote_V1_def
      vote_V2_def votes_ip_hash_check_def fingerprint_a_def fingerprint_b_def Let_def session_simps)

lemma update_vote_checks_length:
  "update_vote service_session scenario_2 ''V2'' (no_vote_update\<lparr>vu_ip_hash := Some ''abc''\<rparr>) =
     (Inl (CheckViolation ''votes_ip_hash_check''), scenario_2)"
  by (simp add: update_vote_def scenario_2_eq no_vote_update_def apply_vote_update_def vote_V1_def
      vote_V2_def votes_ip_hash_check_def fingerprint_a_def fingerprint_b_def Let_def session_simps)

lemma update_vote_changes_fingerprint:
  "update_vote service_session scenario_1 ''V1'' (no_vote_update\<lparr>vu_ip_hash := Some fingerprint_b\<rparr>) =
     (Inr [vote_V1\<lparr>v_ip_hash := fingerprint_b\<rparr>],
      \<lparr>tyrants = [tyrant_E1 1 2], votes = [vote_V1\<lparr>v_ip_hash := fingerprint_b\<rparr>], extra_grants = []\<rparr>)"
  by (simp add: update_vote_def scenario_1_eq no_vote_update_def apply_vote_update_def vote_V1_def
      votes_ip_hash_check_def fingerprint_a_def fingerprint_b_def Let_def session_simps tyrant_E1_def)

lemma update_vote_by_visitor:
  "update_vote anon_session scenario_1 ''V1'' (no_vote_update\<lparr>vu_ip_hash := Some fingerprint_b\<rparr>) =
     (Inl (InsufficientPrivilege ''votes''), scenario_1)"
  by (simp add: update_vote_def Let_def session_simps scenario_1_eq)

lemma tyrants_delete_cascades:
  "tyrants_delete service_session scenario_2 ''E1'' 5 =
     (Inr [tyrant_E1 2 3], \<lparr>tyrants = [], votes = [], extra_grants = []\<rparr>)"
  by (simp add: tyrants_delete_def scenario_2_eq tyrant_E1_def vote_V1_def vote_V2_def
      decrement_shame_count_def Let_def session_simps)

lemma votes_delete_in_sync:
  "votes_delete service_session scenario_2 ''V1'' 4 =
     (Inr [vote_V1], \<lparr>tyrants = [tyrant_E1 1 4], votes = [vote_V2], extra_grants = []\<rparr>)"
  by (simp add: votes_delete_def scenario_2_eq tyrant_E1_def vote_V1_def vote_V2_def
      decrement_shame_count_def update_updated_at_column_def Let_def session_simps int4_def)

subsection \<open>A vote in the visitor's session\<close>

lemma increment_by_visitor_keeps_tyrants:
  assumes "\<not> bypass_rls sess" "\<not> s_jwt_admin sess"
    and "increment_shame_count sess now v s = Inr s'"
  shows "s' = s"
proof -
  have "map (\<lambda>t. if t_id t = v_tyrant_id v \<and> tyrants_rls_modify sess t
                 then update_updated_at_column now (t\<lparr>t_shame_count := t_shame_count t + 1\<rparr>)
                 else t) (tyrants s) = tyrants s"
    using assms(1,2) by (simp add: tyrants_rls_modify_iff)
  with assms(3) show ?thesis
    by (auto simp: increment_shame_count_def Let_def split: if_splits)
qed

lemma visitor_vote_leaves_counters:
  assumes "\<not> bypass_rls sess" "\<not> s_jwt_admin sess"
    and "votes_insert sess s new_id e f now = (Inr v, s')"
  shows "tyrants s' = tyrants s \<and> votes s' = votes s @ [v]"
  using assms(3) increment_by_visitor_keeps_tyrants [OF assms(1,2)]
  by (fastforce simp: votes_insert_def Let_def split: if_splits sum.splits)

lemma schema_grants_refuse_visitor_vote:
  assumes "s_role sess = Anon \<or> s_role sess = Authenticated" "extra_grants s = []"
  shows "\<exists>err. votes_insert sess s new_id e f now = (Inl err, s)"
proof -
  from assms have "\<not> has_privilege s (s_role sess) Tyrants Update"
    by (auto simp: has_privilege_def schema_grants_def)
  then have "increment_shame_count sess now v s0 = Inl (InsufficientPrivilege ''tyrants'')"
    if "extra_grants s0 = extra_grants s" for v s0
    using that by (simp add: increment_shame_count_def has_privilege_def)
  then show ?thesis
    by (simp add: votes_insert_def Let_def)
qed

subsection \<open>The window of \<open>has_voted\<close>\<close>

lemma window_in_range:
  assumes "0 \<le> w" "w \<le> 59000000" "clock_2026 \<le> now" "now < END_TIMESTAMP"
  shows "int4 w \<and> timestamp_in_range (now - w * 3600000000)"
  using assms
  by (simp add: int4_def timestamp_in_range_def MIN_TIMESTAMP_def END_TIMESTAMP_def clock_2026_def)

lemma has_voted_window_expired_vote_still_blocks:
  "has_voted scenario_1 ''E1'' fingerprint_a 24 (2 + hours 24) = Inr False
   \<and> votes_insert anon_session scenario_1 ''V2'' ''E1'' fingerprint_a (2 + hours 24) =
       (Inl (UniqueViolation ''idx_votes_tyrant_ip_unique''), scenario_1)"
  by (simp add: has_voted_def votes_insert_def votes_ip_hash_check_def scenario_1_eq vote_V1_def
      fingerprint_a_def hours_def Let_def int4_def timestamp_in_range_def MIN_TIMESTAMP_def
      END_TIMESTAMP_def)

subsection \<open>Listings\<close>

lemma schema_functions_eq:
  "map f_name schema_functions =
     [''update_updated_at_column'', ''increment_shame_count'', ''decrement_shame_count'',
      ''has_voted'', ''get_pending_submissions_count'']"
  by (simp add: schema_functions_def schema_create_functions_def create_function_accepted_def
      col_name_keywords_def)

lemma fetchTyrants_published_sorted:
  assumes "fetchTyrants s rows"
  shows "set rows = {t \<in> set (tyrants s). t_is_published t}"
    and "sorted_wrt (\<lambda>a b. t_shame_count a \<ge> t_shame_count b) rows"
    and "length rows = length (filter (\<lambda>t. t_is_published t) (tyrants s))"
proof -
  from assms have m: "mset rows = mset (filter (\<lambda>t. t_is_published t = True) (tyrants s))"
    by (simp add: fetchTyrants_def)
  then have "set rows = set (filter (\<lambda>t. t_is_published t = True) (tyrants s))"
    by (rule mset_eq_setD)
  then show "set rows = {t \<in> set (tyrants s). t_is_published t}" by auto
  from assms show "sorted_wrt (\<lambda>a b. t_shame_count a \<ge> t_shame_count b) rows"
    by (simp add: fetchTyrants_def)
  from m have "length rows = length (filter (\<lambda>t. t_is_published t = True) (tyrants s))"
    by (rule mset_eq_length)
  then show "length rows = length (filter (\<lambda>t. t_is_published t) (tyrants s))" by simp
qed

lemma fetchTyrants_some_result: "\<exists>rows. fetchTyrants s rows"
proof -
  let ?rows = "sort_key (\<lambda>t. - t_shame_count t) (filter (\<lambda>t. t_is_published t = True) (tyrants s))"
  have "sorted (map (\<lambda>t. - t_shame_count t) ?rows)" by (rule sorted_sort_key)
  then have "sorted_wrt (\<lambda>a b. t_shame_count a \<ge> t_shame_count b) ?rows"
    by (simp add: sorted_wrt_map)
  then have "fetchTyrants s ?rows" by (simp add: fetchTyrants_def)
  then show ?thesis ..
qed

subsection \<open>The length of a fingerprint\<close>

declare to_radix.simps [simp del]

lemma length_to_radix_10:
  "0 < k \<Longrightarrow> n < 10 ^ k \<Longrightarrow> length (to_radix 10 n) \<le> k"
proof (induction k arbitrary: n)
  case 0
  then show ?case by simp
next
  case (Suc k)
  show ?case
  proof (cases "n < 10")
    case True
    then show ?thesis by (simp add: to_radix.simps [of 10 n])
  next
    case False
    with Suc.prems have "0 < k" by (cases k) auto
    moreover from Suc.prems have "n div 10 < 10 ^ k" by (simp add: less_mult_imp_div_less mult.commute)
    ultimately have "length (to_radix 10 (n div 10)) \<le> k" by (rule Suc.IH)
    with False show ?thesis by (simp add: to_radix.simps [of 10 n])
  qed
qed

lemma length_to_radix_pos: "1 \<le> length (to_radix b n)"
  by (subst to_radix.simps) simp

lemma length_number_toString:
  assumes "time_value t"
  shows "length (number_toString t) \<le> 17"
proof -
  from assms have "nat (- t) < 10000000000000000" "nat t < 10000000000000000"
    unfolding time_value_def by linarith+
  then have "nat (- t) < 10 ^ 16" "nat t < 10 ^ 16"
    by simp_all
  then have "length (to_radix 10 (nat (- t))) \<le> 16" "length (to_radix 10 (nat t)) \<le> 16"
    by (simp_all add: length_to_radix_10)
  then show ?thesis by (simp add: number_toString_def)
qed

lemma length_fallback:
  assumes "time_value t"
  shows "11 \<le> length (getIpHash None t)" "length (getIpHash None t) \<le> 27"
  using length_number_toString [OF assms] length_to_radix_pos [of 10 "nat t"]
    length_to_radix_pos [of 10 "nat (- t)"]
  by (auto simp: getIpHash_def number_toString_def split: if_splits)

lemma length_hex_byte: "length (padStart 2 CHR ''0'' (to_radix 16 (unat (b :: 8 word)))) = 2"
proof -
  have lt: "unat b < 256" using unsigned_less [of b] by simp
  show ?thesis
  proof (cases "unat b < 16")
    case True
    then show ?thesis by (simp add: padStart_def to_radix.simps [of 16 "unat b"])
  next
    case False
    with lt have "unat b div 16 < 16" by simp
    then have "length (to_radix 16 (unat b div 16)) = 1"
      by (simp add: to_radix.simps [of 16 "unat b div 16"])
    with False show ?thesis by (simp add: padStart_def to_radix.simps [of 16 "unat b"])
  qed
qed

lemma length_getIpHash_digest:
  "length (getIpHash (Some bytes) t) = 2 * length bytes"
  by (induction bytes) (simp_all add: getIpHash_def length_hex_byte)

subsection \<open>The forms, validated\<close>

lemma validateForm_form_federal: "validateForm form_federal"
  by (simp add: validateForm_def validateField_def form_federal_def trim_def is_space_def)

lemma tyrant_category_in_iff:
  "(\<exists>c. tyrant_category_in x = Inr c) \<longleftrightarrow> x \<in> set tyrant_category_labels"
  by (simp add: tyrant_category_in_def tyrant_category_labels_def)

lemma tyrant_category_out_label: "tyrant_category_out c \<in> set tyrant_category_labels"
  by (cases c) (simp_all add: tyrant_category_labels_def)

lemma tyrant_category_in_out: "tyrant_category_in (tyrant_category_out c) = Inr c"
  by (cases c) (simp_all add: tyrant_category_in_def)

lemma email_regex_test_example: "email_regex_test ''jane@example.org''"
  by (simp add: email_regex_test_def Let_def not_space_at_def is_space_def upt_rec)

lemma validateForm_form_typed_email: "validateForm form_typed_email"
  by (simp add: validateForm_def validateField_def form_typed_email_def form_federal_def trim_def
      is_space_def email_regex_test_example)

lemma invalid_email_blocks_anonymous_submission:
  "fd_is_anonymous (form_federal\<lparr>fd_reporter_email := ''jane''\<rparr>)
   \<and> handleSubmit (form_federal\<lparr>fd_reporter_email := ''jane''\<rparr>) No_file = None"
  by (simp add: handleSubmit_def validateForm_def validateField_def form_federal_def trim_def
      is_space_def email_regex_test_def Let_def not_space_at_def upt_rec)

section \<open>The vote ledger and its counter\<close>

text \<open>
  C1. The counter does not follow the live votes when a visitor votes, because the
  insert trigger updates \<open>tyrants\<close> with the visitor's rights. With the grants of the
  schema, \<open>handleVote\<close> in the session of \<open>anon\<close> fails with insufficient privilege on
  \<open>tyrants\<close> and the vote is rolled back, so no visitor casts a vote. In a database
  that also lets \<open>anon\<close> update \<open>tyrants\<close>, no policy admits the row: the vote is stored,
  the counter of \<open>E1\<close> stays 0 beside one live vote, in a reachable store, while the
  browser shows 1.
\<close>

theorem visitor_vote_is_not_counted:
  "handleVote anon_session scenario_0 client_0 fingerprint_a ''E1'' ''V1'' 2 =
     (Some (InsufficientPrivilege ''tyrants''), scenario_0, client_0)
   \<and> handleVote anon_session scenario_0_anon_update client_0 fingerprint_a ''E1'' ''V1'' 2 =
     (None, scenario_uncounted,
      \<lparr>c_tyrants = [tyrant_E1 1 1], c_votedTyrants = {''E1''}\<rparr>)
   \<and> reachable scenario_uncounted
   \<and> map t_shame_count (tyrants scenario_uncounted) = [0]
   \<and> map (\<lambda>t. length (live_votes scenario_uncounted (t_id t))) (tyrants scenario_uncounted) = [1]
   \<and> \<not> counters_in_sync scenario_uncounted"
proof -
  have a: "handleVote anon_session scenario_0 client_0 fingerprint_a ''E1'' ''V1'' 2 =
     (Some (InsufficientPrivilege ''tyrants''), scenario_0, client_0)"
    by (simp add: handleVote_def scenario_0_eq votes_insert_def votes_ip_hash_check_def
        fingerprint_a_def tyrant_E1_def increment_shame_count_def Let_def session_simps)
  have b: "handleVote anon_session scenario_0_anon_update client_0 fingerprint_a ''E1'' ''V1'' 2 =
     (None, scenario_uncounted,
      \<lparr>c_tyrants = [tyrant_E1 1 1], c_votedTyrants = {''E1''}\<rparr>)"
    by (simp add: handleVote_def scenario_0_anon_update_eq scenario_uncounted_def votes_insert_def
        votes_ip_hash_check_def fingerprint_a_def tyrant_E1_def vote_V1_def
        increment_shame_count_def Let_def session_simps int4_def
        rpc_increment_shame_count_unresolved client_0_def)
  have c: "map t_shame_count (tyrants scenario_uncounted) = [0]"
    by (simp add: scenario_uncounted_def tyrant_E1_def)
  have d: "map (\<lambda>t. length (live_votes scenario_uncounted (t_id t))) (tyrants scenario_uncounted) = [1]"
    by (simp add: scenario_uncounted_def tyrant_E1_def live_votes_def vote_V1_def)
  have e: "\<not> counters_in_sync scenario_uncounted"
    by (simp add: counters_in_sync_def scenario_uncounted_def tyrant_E1_def live_votes_def vote_V1_def)
  from a b c d e reachable_scenario_uncounted show ?thesis by blast
qed

text \<open>
  C2. In every reachable store at most one live vote exists for an entry \<open>E\<close> and a
  fingerprint \<open>F\<close>, and while one is live every further insert of the pair, in any
  session, fails and leaves the store as it is.
\<close>

theorem one_live_vote_per_entry_and_fingerprint:
  assumes "reachable s"
  shows "length (filter (\<lambda>v. v_tyrant_id v = E \<and> v_ip_hash v = F) (votes s)) \<le> 1
    \<and> ((\<exists>v\<in>set (votes s). v_tyrant_id v = E \<and> v_ip_hash v = F) \<longrightarrow>
         (\<forall>sess new_id now. \<exists>err. votes_insert sess s new_id E F now = (Inl err, s)))"
proof -
  from assms have ok: "store_ok s" by (rule reachable_store_ok)
  then have "distinct (map (\<lambda>v. (v_tyrant_id v, v_ip_hash v)) (votes s))"
    by (simp add: store_ok_def idx_votes_tyrant_ip_unique_def)
  then have "length (filter (\<lambda>y. (v_tyrant_id y, v_ip_hash y) = (E, F)) (votes s)) \<le> 1"
    by (rule length_filter_key_le_1)
  then have one: "length (filter (\<lambda>v. v_tyrant_id v = E \<and> v_ip_hash v = F) (votes s)) \<le> 1"
    by simp
  from ok have chk: "votes_ip_hash_checked s" by (simp add: store_ok_def)
  have "\<exists>err. votes_insert sess s new_id E F now = (Inl err, s)"
    if "v \<in> set (votes s)" "v_tyrant_id v = E" "v_ip_hash v = F" for v sess new_id now
    using votes_insert_duplicate [OF chk that] by blast
  with one show ?thesis by blast
qed

theorem one_live_vote_per_entry_and_fingerprint_witness:
  "reachable scenario_1
   \<and> length (filter (\<lambda>v. v_tyrant_id v = ''E1'' \<and> v_ip_hash v = fingerprint_a) (votes scenario_1)) = 1
   \<and> (\<exists>err. votes_insert anon_session scenario_1 ''V2'' ''E1'' fingerprint_a 3 = (Inl err, scenario_1))"
proof -
  note T = one_live_vote_per_entry_and_fingerprint [OF reachable_scenario_1, of "''E1''" fingerprint_a]
  have "\<exists>v\<in>set (votes scenario_1). v_tyrant_id v = ''E1'' \<and> v_ip_hash v = fingerprint_a"
    by (simp add: scenario_1_eq vote_V1_def)
  with T have "\<exists>err. votes_insert anon_session scenario_1 ''V2'' ''E1'' fingerprint_a 3 = (Inl err, scenario_1)"
    by blast
  moreover have "length (filter (\<lambda>v. v_tyrant_id v = ''E1'' \<and> v_ip_hash v = fingerprint_a) (votes scenario_1)) = 1"
    by (simp add: scenario_1_eq vote_V1_def)
  ultimately show ?thesis using reachable_scenario_1 by blast
qed

text \<open>
  C3. When a live vote for \<open>(E, F)\<close> exists in a store whose votes satisfy the check
  constraint (every reachable store does), inserting a vote for \<open>(E, F)\<close>, in any
  session, fails with a unique violation, code 23505, which is the duplicate vote of the
  spec. The store is unchanged: no vote is added and no counter moves. \<open>handleVote\<close>
  passes the error on, leaves the store unchanged too, and marks the entry as voted.
\<close>

theorem duplicate_vote_rejected:
  assumes "votes_ip_hash_checked s" and "v \<in> set (votes s)"
    and "v_tyrant_id v = E" and "v_ip_hash v = F"
  shows "\<exists>err. votes_insert sess s new_id E F now = (Inl err, s) \<and> sqlstate err = ''23505''
    \<and> handleVote sess s c F E new_id now =
        (Some err, s, c\<lparr>c_votedTyrants := insert E (c_votedTyrants c)\<rparr>)"
proof -
  let ?err = "UniqueViolation (if new_id \<in> v_id ` set (votes s)
                                  then ''votes_pkey'' else ''idx_votes_tyrant_ip_unique'')"
  have ins: "votes_insert sess s new_id E F now = (Inl ?err, s)"
    using assms by (rule votes_insert_duplicate)
  have "sqlstate ?err = ''23505''" by simp
  moreover have "handleVote sess s c F E new_id now =
      (Some ?err, s, c\<lparr>c_votedTyrants := insert E (c_votedTyrants c)\<rparr>)"
    by (simp add: handleVote_def ins)
  ultimately show ?thesis using ins by blast
qed

theorem duplicate_vote_rejected_witness:
  "votes_ip_hash_checked scenario_1 \<and> vote_V1 \<in> set (votes scenario_1)
   \<and> v_tyrant_id vote_V1 = ''E1'' \<and> v_ip_hash vote_V1 = fingerprint_a
   \<and> (\<exists>err. votes_insert anon_session scenario_1 ''V2'' ''E1'' fingerprint_a 3 = (Inl err, scenario_1)
          \<and> sqlstate err = ''23505'')"
proof -
  have h: "votes_ip_hash_checked scenario_1" "vote_V1 \<in> set (votes scenario_1)"
    "v_tyrant_id vote_V1 = ''E1''" "v_ip_hash vote_V1 = fingerprint_a"
    by (simp_all add: scenario_1_eq vote_V1_def votes_ip_hash_checked_def votes_ip_hash_check_def
        fingerprint_a_def)
  from duplicate_vote_rejected [OF h, of anon_session "''V2''" 3 "\<lparr>c_tyrants = [], c_votedTyrants = {}\<rparr>"]
  have "\<exists>err. votes_insert anon_session scenario_1 ''V2'' ''E1'' fingerprint_a 3 = (Inl err, scenario_1)
          \<and> sqlstate err = ''23505''"
    by blast
  with h show ?thesis by blast
qed

text \<open>
  C4. In a store whose votes have distinct ids (the primary key), let a session that may
  delete votes and update entries, and that bypasses row level security, delete a vote
  by its id, and let the counter of the vote's entry be an INTEGER other than the least
  one (as every counter from 0 on is). Then the delete removes exactly that vote and
  sets the counter of its entry to \<open>max (n - 1) 0\<close>: the counter is not negative
  afterwards, and a counter that was 0, as in a store that was out of sync, stays 0.
  Other counters stay. Deleting the same id again removes nothing and changes nothing.
\<close>

theorem revoke_vote_decrements_with_floor:
  assumes "votes_pkey s" and "v \<in> set (votes s)"
    and "has_privilege s (s_role sess) Votes Delete"
    and "has_privilege s (s_role sess) Tyrants Update" and "bypass_rls sess"
    and "\<forall>t\<in>set (tyrants s). t_id t = v_tyrant_id v \<longrightarrow>
           int4 (t_shame_count t) \<and> t_shame_count t \<noteq> - 2147483648"
  shows "\<exists>s'. votes_delete sess s (v_id v) now = (Inr [v], s')
    \<and> votes s' = filter (\<lambda>y. v_id y \<noteq> v_id v) (votes s) \<and> v \<notin> set (votes s')
    \<and> map t_id (tyrants s') = map t_id (tyrants s)
    \<and> map t_shame_count (tyrants s') =
        map (\<lambda>t. if t_id t = v_tyrant_id v then max (t_shame_count t - 1) 0 else t_shame_count t)
          (tyrants s)
    \<and> (\<forall>i<length (tyrants s). t_id (tyrants s ! i) = v_tyrant_id v \<longrightarrow>
          0 \<le> t_shame_count (tyrants s' ! i) \<and>
          (t_shame_count (tyrants s ! i) = 0 \<longrightarrow> t_shame_count (tyrants s' ! i) = 0))
    \<and> votes_delete sess s' (v_id v) later = (Inr [], s')"
proof -
  let ?ts = "map (\<lambda>t. if t_id t = v_tyrant_id v
                    then update_updated_at_column now (t\<lparr>t_shame_count := max (t_shame_count t - 1) 0\<rparr>)
                    else t) (tyrants s)"
  let ?s' = "s\<lparr>votes := filter (\<lambda>y. v_id y \<noteq> v_id v) (votes s), tyrants := ?ts\<rparr>"
  from assms(6) have range: "\<forall>t\<in>set (tyrants s). t_id t = v_tyrant_id v \<longrightarrow> int4 (t_shame_count t - 1)"
    by (auto simp: int4_def)
  have del: "votes_delete sess s (v_id v) now = (Inr [v], ?s')"
    using assms(1-5) range by (rule votes_delete_present)
  have vs: "votes ?s' = filter (\<lambda>y. v_id y \<noteq> v_id v) (votes s)" by simp
  then have gone: "v \<notin> set (votes ?s')" by simp
  have ids: "map t_id (tyrants ?s') = map t_id (tyrants s)"
    by (simp add: t_id_after_decrement del: map_map)
  have cnt: "map t_shame_count (tyrants ?s') =
        map (\<lambda>t. if t_id t = v_tyrant_id v then max (t_shame_count t - 1) 0 else t_shame_count t)
          (tyrants s)"
    by (simp add: shame_count_after_decrement del: map_map)
  have floor: "0 \<le> t_shame_count (tyrants ?s' ! i) \<and>
          (t_shame_count (tyrants s ! i) = 0 \<longrightarrow> t_shame_count (tyrants ?s' ! i) = 0)"
    if "i < length (tyrants s)" "t_id (tyrants s ! i) = v_tyrant_id v" for i
  proof -
    from that have "t_shame_count (tyrants ?s' ! i) = max (t_shame_count (tyrants s ! i) - 1) 0"
      by (simp add: update_updated_at_column_def)
    then show ?thesis by auto
  qed
  have "has_privilege ?s' (s_role sess) Votes Delete"
    using assms(3) by (simp add: has_privilege_def)
  moreover have "v_id v \<notin> v_id ` set (votes ?s')" by auto
  ultimately have again: "votes_delete sess ?s' (v_id v) later = (Inr [], ?s')"
    by (rule votes_delete_absent)
  from del vs gone ids cnt floor again show ?thesis by blast
qed

theorem revoke_vote_decrements_with_floor_witness:
  "votes_pkey out_of_sync \<and> vote_V1 \<in> set (votes out_of_sync)
   \<and> has_privilege out_of_sync (s_role service_session) Votes Delete
   \<and> has_privilege out_of_sync (s_role service_session) Tyrants Update
   \<and> bypass_rls service_session
   \<and> map t_shame_count (tyrants out_of_sync) = [0]
   \<and> fst (votes_delete service_session out_of_sync ''V1'' 4) = Inr [vote_V1]
   \<and> votes (snd (votes_delete service_session out_of_sync ''V1'' 4)) = []
   \<and> map t_shame_count (tyrants (snd (votes_delete service_session out_of_sync ''V1'' 4))) = [0]"
proof -
  have h: "votes_pkey out_of_sync" "vote_V1 \<in> set (votes out_of_sync)"
    "has_privilege out_of_sync (s_role service_session) Votes Delete"
    "has_privilege out_of_sync (s_role service_session) Tyrants Update"
    "bypass_rls service_session"
    by (simp_all add: out_of_sync_def votes_pkey_def session_simps)
  have r: "\<forall>t\<in>set (tyrants out_of_sync). t_id t = v_tyrant_id vote_V1 \<longrightarrow>
           int4 (t_shame_count t) \<and> t_shame_count t \<noteq> - 2147483648"
    by (simp add: out_of_sync_def tyrant_E1_def int4_def)
  from revoke_vote_decrements_with_floor [OF h r, of 4 5]
  obtain s' where d: "votes_delete service_session out_of_sync (v_id vote_V1) 4 = (Inr [vote_V1], s')"
    and vs: "votes s' = filter (\<lambda>y. v_id y \<noteq> v_id vote_V1) (votes out_of_sync)"
    and cnt: "map t_shame_count (tyrants s') =
        map (\<lambda>t. if t_id t = v_tyrant_id vote_V1 then max (t_shame_count t - 1) 0 else t_shame_count t)
          (tyrants out_of_sync)"
    by blast
  have id: "v_id vote_V1 = ''V1''" by (simp add: vote_V1_def)
  from d have a: "fst (votes_delete service_session out_of_sync ''V1'' 4) = Inr [vote_V1]"
    and s': "snd (votes_delete service_session out_of_sync ''V1'' 4) = s'"
    by (simp_all add: id)
  from vs have b: "votes s' = []" by (simp add: out_of_sync_def vote_V1_def)
  from cnt have c: "map t_shame_count (tyrants s') = [0]"
    by (simp add: out_of_sync_def vote_V1_def tyrant_E1_def)
  have z: "map t_shame_count (tyrants out_of_sync) = [0]"
    by (simp add: out_of_sync_def tyrant_E1_def)
  from b c have "votes (snd (votes_delete service_session out_of_sync ''V1'' 4)) = []"
    and "map t_shame_count (tyrants (snd (votes_delete service_session out_of_sync ''V1'' 4))) = [0]"
    by (simp_all only: s')
  with h z a show ?thesis by blast
qed

section \<open>The format of a fingerprint\<close>

text \<open>
  C5, as the spec states it, fails: the check constraint looks at the length only. A
  fingerprint of 64 letters \<open>z\<close> is not in the spec's format, and the insert accepts it:
  in the service's session the vote is stored and the counter of \<open>E1\<close> goes from 0 to
  1; in a visitor's session the insert fails, but on the privilege of the trigger, not
  on the format.
\<close>

theorem malformed_fingerprint_counterexample:
  "\<not> sha256_hex_format fingerprint_z
   \<and> votes_insert service_session scenario_0 ''V1'' ''E1'' fingerprint_z 2 =
       (Inr \<lparr>v_id = ''V1'', v_tyrant_id = ''E1'', v_ip_hash = fingerprint_z, v_created_at = 2\<rparr>,
        \<lparr>tyrants = [tyrant_E1 1 2],
         votes = [\<lparr>v_id = ''V1'', v_tyrant_id = ''E1'', v_ip_hash = fingerprint_z, v_created_at = 2\<rparr>],
         extra_grants = []\<rparr>)
   \<and> votes_insert anon_session scenario_0 ''V1'' ''E1'' fingerprint_z 2 =
       (Inl (InsufficientPrivilege ''tyrants''), scenario_0)"
proof -
  have "\<not> hex_char CHR ''z''" by (simp add: hex_char_def)
  then have "\<not> sha256_hex_format fingerprint_z"
    by (simp add: sha256_hex_format_def fingerprint_z_def list_all_iff)
  moreover have "votes_insert service_session scenario_0 ''V1'' ''E1'' fingerprint_z 2 =
       (Inr \<lparr>v_id = ''V1'', v_tyrant_id = ''E1'', v_ip_hash = fingerprint_z, v_created_at = 2\<rparr>,
        \<lparr>tyrants = [tyrant_E1 1 2],
         votes = [\<lparr>v_id = ''V1'', v_tyrant_id = ''E1'', v_ip_hash = fingerprint_z, v_created_at = 2\<rparr>],
         extra_grants = []\<rparr>)"
    by (simp add: scenario_0_eq votes_insert_def votes_ip_hash_check_def Let_def tyrant_E1_def
        increment_shame_count_def update_updated_at_column_def fingerprint_z_def session_simps int4_def)
  moreover have "votes_insert anon_session scenario_0 ''V1'' ''E1'' fingerprint_z 2 =
       (Inl (InsufficientPrivilege ''tyrants''), scenario_0)"
    by (simp add: scenario_0_eq votes_insert_def votes_ip_hash_check_def Let_def tyrant_E1_def
        increment_shame_count_def fingerprint_z_def session_simps)
  ultimately show ?thesis by simp
qed

text \<open>
  C5, amended. For every entry id and every fingerprint whose length is not exactly 64
  characters, the insert, in any session, fails with the check violation of
  \<open>votes_ip_hash_check\<close> and has no effect on the store, through \<open>handleVote\<close> as well;
  and the insert fails with a check violation for no other fingerprint.
\<close>

theorem wrong_length_fingerprint_rejected:
  "((\<exists>c. fst (votes_insert sess s new_id e f now) = Inl (CheckViolation c)) \<longleftrightarrow> length f \<noteq> 64)
   \<and> (length f \<noteq> 64 \<longrightarrow>
        votes_insert sess s new_id e f now = (Inl (CheckViolation ''votes_ip_hash_check''), s)
        \<and> handleVote sess s c f e new_id now = (Some (CheckViolation ''votes_ip_hash_check''), s, c))"
proof -
  have a: "votes_insert sess s new_id e f now = (Inl (CheckViolation ''votes_ip_hash_check''), s)"
    if "length f \<noteq> 64"
    using that by (rule votes_insert_check_violation)
  have b: "handleVote sess s c f e new_id now = (Some (CheckViolation ''votes_ip_hash_check''), s, c)"
    if "length f \<noteq> 64"
    by (simp add: handleVote_def a [OF that])
  have c: "fst (votes_insert sess s new_id e f now) \<noteq> Inl (CheckViolation k)" if "length f = 64" for k
    using that by (rule votes_insert_no_check_violation)
  from a b c show ?thesis by (cases "length f = 64") auto
qed

theorem wrong_length_fingerprint_rejected_witness:
  "length ''abc'' \<noteq> 64
   \<and> votes_insert anon_session scenario_1 ''V2'' ''E1'' ''abc'' 3 =
       (Inl (CheckViolation ''votes_ip_hash_check''), scenario_1)"
  using wrong_length_fingerprint_rejected [of anon_session scenario_1 "''V2''" "''E1''" "''abc''" 3]
  by simp

section \<open>Listing the published entries\<close>

text \<open>
  C6. The store has no function \<open>get_published_tyrants\<close>: the parser refuses its
  \<open>CREATE FUNCTION\<close> statement, whose \<open>RETURNS TABLE\<close> names a column \<open>position\<close>, so
  a call with or without arguments resolves to nothing, while \<open>has_voted\<close> exists. The
  listing that runs is the client's \<open>fetchTyrants\<close>. On the table \<open>listing_store\<close> it
  may return \<open>C, B, E, A\<close> as well as \<open>C, E, B, A\<close>: the first puts \<open>B\<close> before the more
  recent \<open>E\<close> of the same counter, against the order by creation time. It returns the
  entries of every category and never the unpublished \<open>D\<close>, and it is never out of the
  order of the counters; the browser then keeps the entries of the chosen category.
\<close>

theorem listing_function_is_never_created:
  "\<not> function_exists ''get_published_tyrants''
   \<and> rpc_resolve ''get_published_tyrants'' [''p_category'', ''p_limit'', ''p_offset''] = None
   \<and> rpc_resolve ''get_published_tyrants'' [] = None
   \<and> function_exists ''has_voted''
   \<and> fetchTyrants listing_store
        [mk_tyrant ''C'' Federal 5 True 3, mk_tyrant ''B'' State 3 True 2,
         mk_tyrant ''E'' State 3 True 5, mk_tyrant ''A'' State 1 True 1]
   \<and> fetchTyrants listing_store
        [mk_tyrant ''C'' Federal 5 True 3, mk_tyrant ''E'' State 3 True 5,
         mk_tyrant ''B'' State 3 True 2, mk_tyrant ''A'' State 1 True 1]
   \<and> \<not> sorted_wrt shame_created_desc
        [mk_tyrant ''C'' Federal 5 True 3, mk_tyrant ''B'' State 3 True 2,
         mk_tyrant ''E'' State 3 True 5, mk_tyrant ''A'' State 1 True 1]
   \<and> \<not> fetchTyrants listing_store
        [mk_tyrant ''D'' State 9 False 4, mk_tyrant ''C'' Federal 5 True 3,
         mk_tyrant ''B'' State 3 True 2, mk_tyrant ''E'' State 3 True 5,
         mk_tyrant ''A'' State 1 True 1]
   \<and> \<not> fetchTyrants listing_store
        [mk_tyrant ''B'' State 3 True 2, mk_tyrant ''C'' Federal 5 True 3,
         mk_tyrant ''E'' State 3 True 5, mk_tyrant ''A'' State 1 True 1]
   \<and> filteredTyrants (Some State)
        [mk_tyrant ''C'' Federal 5 True 3, mk_tyrant ''B'' State 3 True 2,
         mk_tyrant ''E'' State 3 True 5, mk_tyrant ''A'' State 1 True 1] =
        [mk_tyrant ''B'' State 3 True 2, mk_tyrant ''E'' State 3 True 5, mk_tyrant ''A'' State 1 True 1]"
proof -
  have 1: "\<not> function_exists ''get_published_tyrants''" "function_exists ''has_voted''"
    by (simp_all add: function_exists_def schema_functions_def schema_create_functions_def
        create_function_accepted_def col_name_keywords_def)
  have 2: "rpc_resolve ''get_published_tyrants'' [''p_category'', ''p_limit'', ''p_offset''] = None"
    "rpc_resolve ''get_published_tyrants'' [] = None"
    by (simp_all add: rpc_resolve_def schema_functions_def schema_create_functions_def
        create_function_accepted_def col_name_keywords_def)
  have pub: "filter (\<lambda>t. t_is_published t = True) (tyrants listing_store) =
      [mk_tyrant ''A'' State 1 True 1, mk_tyrant ''B'' State 3 True 2,
       mk_tyrant ''C'' Federal 5 True 3, mk_tyrant ''E'' State 3 True 5]"
    by (simp add: listing_store_def mk_tyrant_def)
  have 3: "fetchTyrants listing_store
        [mk_tyrant ''C'' Federal 5 True 3, mk_tyrant ''B'' State 3 True 2,
         mk_tyrant ''E'' State 3 True 5, mk_tyrant ''A'' State 1 True 1]"
    unfolding fetchTyrants_def pub by (simp add: mk_tyrant_def)
  have 4: "fetchTyrants listing_store
        [mk_tyrant ''C'' Federal 5 True 3, mk_tyrant ''E'' State 3 True 5,
         mk_tyrant ''B'' State 3 True 2, mk_tyrant ''A'' State 1 True 1]"
    unfolding fetchTyrants_def pub by (simp add: mk_tyrant_def)
  have 5: "\<not> sorted_wrt shame_created_desc
        [mk_tyrant ''C'' Federal 5 True 3, mk_tyrant ''B'' State 3 True 2,
         mk_tyrant ''E'' State 3 True 5, mk_tyrant ''A'' State 1 True 1]"
    by (simp add: shame_created_desc_def mk_tyrant_def)
  have 6: "\<not> fetchTyrants listing_store
        [mk_tyrant ''D'' State 9 False 4, mk_tyrant ''C'' Federal 5 True 3,
         mk_tyrant ''B'' State 3 True 2, mk_tyrant ''E'' State 3 True 5,
         mk_tyrant ''A'' State 1 True 1]"
  proof
    assume "fetchTyrants listing_store
        [mk_tyrant ''D'' State 9 False 4, mk_tyrant ''C'' Federal 5 True 3,
         mk_tyrant ''B'' State 3 True 2, mk_tyrant ''E'' State 3 True 5,
         mk_tyrant ''A'' State 1 True 1]"
    from fetchTyrants_published_sorted(3) [OF this] show False
      by (simp add: listing_store_def mk_tyrant_def)
  qed
  have 7: "\<not> fetchTyrants listing_store
        [mk_tyrant ''B'' State 3 True 2, mk_tyrant ''C'' Federal 5 True 3,
         mk_tyrant ''E'' State 3 True 5, mk_tyrant ''A'' State 1 True 1]"
    by (simp add: fetchTyrants_def mk_tyrant_def)
  have 8: "filteredTyrants (Some State)
        [mk_tyrant ''C'' Federal 5 True 3, mk_tyrant ''B'' State 3 True 2,
         mk_tyrant ''E'' State 3 True 5, mk_tyrant ''A'' State 1 True 1] =
        [mk_tyrant ''B'' State 3 True 2, mk_tyrant ''E'' State 3 True 5, mk_tyrant ''A'' State 1 True 1]"
    by (simp add: filteredTyrants_def mk_tyrant_def)
  from 1 2 3 4 5 6 7 8 show ?thesis by blast
qed

section \<open>Categories at the boundary\<close>

text \<open>
  C7. The store accepts and returns only the four enum labels (\<open>tyrant_category_in_iff\<close>,
  \<open>tyrant_category_out_label\<close>), but the submission form does not send them: for the
  valid form \<open>form_federal\<close>, \<open>handleSubmit\<close> sends the category \<open>Federal\<close>, which is
  no label of the enum and which the enum's input function rejects; the same holds for
  every option of the form's category select.
\<close>

theorem submission_form_sends_display_label:
  "handleSubmit form_federal No_file = Some (submission form_federal None)
   \<and> si_category (submission form_federal None) = ''Federal''
   \<and> ''Federal'' \<notin> set tyrant_category_labels
   \<and> tyrant_category_in ''Federal'' = Inl (InvalidTextRepresentation ''Federal'')
   \<and> list_all (\<lambda>c. c \<notin> set tyrant_category_labels \<and> isl (tyrant_category_in c)) category_options"
proof -
  have "handleSubmit form_federal No_file = Some (submission form_federal None)"
    by (simp add: handleSubmit_def validateForm_form_federal)
  moreover have "si_category (submission form_federal None) = ''Federal''"
    by (simp add: submission_def form_federal_def)
  moreover have "list_all (\<lambda>c. c \<notin> set tyrant_category_labels \<and> isl (tyrant_category_in c)) category_options"
    by (simp add: category_options_def tyrant_category_labels_def tyrant_category_in_def)
  moreover have "''Federal'' \<notin> set tyrant_category_labels"
    by (simp add: tyrant_category_labels_def)
  moreover have "tyrant_category_in ''Federal'' = Inl (InvalidTextRepresentation ''Federal'')"
    by (simp add: tyrant_category_in_def)
  ultimately show ?thesis by blast
qed

section \<open>The windowed check\<close>




section \<open>The fallback fingerprint\<close>

text \<open>
  C9. When the lookup fails, \<open>getIpHash\<close> returns \<open>anonymous-\<close> followed by the
  clock's decimal digits. For every time value the clock can give, that string is not 64
  characters long, it violates \<open>votes_ip_hash_check\<close>, and a vote insert with it, in any
  session, is rejected and leaves the store unchanged, directly and through
  \<open>handleVote\<close>.
\<close>

theorem fallback_fingerprint_never_votes:
  assumes "time_value date_now"
  shows "getIpHash None date_now = ''anonymous-'' @ number_toString date_now
    \<and> length (getIpHash None date_now) \<noteq> 64
    \<and> \<not> votes_ip_hash_check (getIpHash None date_now)
    \<and> votes_insert sess s new_id tyrantId (getIpHash None date_now) now =
        (Inl (CheckViolation ''votes_ip_hash_check''), s)
    \<and> handleVote sess s c (getIpHash None date_now) tyrantId new_id now =
        (Some (CheckViolation ''votes_ip_hash_check''), s, c)"
proof -
  from length_fallback(2) [OF assms] have len: "length (getIpHash None date_now) \<noteq> 64"
    by simp
  then have ins: "votes_insert sess s new_id tyrantId (getIpHash None date_now) now =
        (Inl (CheckViolation ''votes_ip_hash_check''), s)"
    by (rule votes_insert_check_violation)
  then have "handleVote sess s c (getIpHash None date_now) tyrantId new_id now =
        (Some (CheckViolation ''votes_ip_hash_check''), s, c)"
    by (simp add: handleVote_def)
  with len ins show ?thesis by (simp add: getIpHash_def votes_ip_hash_check_def)
qed

theorem fallback_fingerprint_never_votes_witness:
  "time_value 1762160000000
   \<and> getIpHash None 1762160000000 = ''anonymous-1762160000000''
   \<and> votes_insert anon_session scenario_0 ''V1'' ''E1'' ''anonymous-1762160000000'' 2 =
        (Inl (CheckViolation ''votes_ip_hash_check''), scenario_0)"
proof -
  have t: "time_value 1762160000000" by (simp add: time_value_def)
  have e: "getIpHash None 1762160000000 = ''anonymous-1762160000000''"
    by (simp add: getIpHash_def number_toString_def to_radix.simps digit_char_def)
  from fallback_fingerprint_never_votes [OF t, of anon_session scenario_0 "''V1''" "''E1''" 2]
  have "votes_insert anon_session scenario_0 ''V1'' ''E1'' (getIpHash None 1762160000000) 2 =
        (Inl (CheckViolation ''votes_ip_hash_check''), scenario_0)"
    by blast
  then have "votes_insert anon_session scenario_0 ''V1'' ''E1'' ''anonymous-1762160000000'' 2 =
        (Inl (CheckViolation ''votes_ip_hash_check''), scenario_0)"
    by (simp only: e)
  with t e show ?thesis by blast
qed

section \<open>Anonymous submissions\<close>

text \<open>
  C10. For every form with \<open>is_anonymous\<close> set, the record built for the store has a
  null reporter email, and the record is the same whatever text \<open>typed\<close> stands in the
  email field. So every record that \<open>handleSubmit\<close> sends for such a form has a null
  email, and two runs that differ only in the typed email and both send a record send the
  same record.
\<close>

theorem anonymous_submission_has_no_email:
  assumes "fd_is_anonymous formData"
  shows "si_reporter_email (submission formData evidenceUrl) = None
    \<and> submission (formData\<lparr>fd_reporter_email := typed\<rparr>) evidenceUrl = submission formData evidenceUrl
    \<and> (\<forall>r. handleSubmit formData selectedFile = Some r \<longrightarrow> si_reporter_email r = None)
    \<and> (\<forall>r1 r2. handleSubmit (formData\<lparr>fd_reporter_email := typed\<rparr>) selectedFile = Some r1 \<longrightarrow>
          handleSubmit formData selectedFile = Some r2 \<longrightarrow> r1 = r2)"
proof -
  have none: "si_reporter_email (submission formData e) = None" for e
    using assms by (simp add: submission_def)
  have same: "submission (formData\<lparr>fd_reporter_email := typed\<rparr>) e = submission formData e" for e
    using assms by (simp add: submission_def)
  have sent: "si_reporter_email r = None" if "handleSubmit formData selectedFile = Some r" for r
    using that none by (auto simp: handleSubmit_def split: if_splits upload.splits)
  have both: "r1 = r2"
    if "handleSubmit (formData\<lparr>fd_reporter_email := typed\<rparr>) selectedFile = Some r1"
      and "handleSubmit formData selectedFile = Some r2" for r1 r2
    using that same by (auto simp: handleSubmit_def split: if_splits upload.splits)
  from none same sent both show ?thesis by blast
qed

theorem anonymous_submission_has_no_email_witness:
  "fd_is_anonymous form_typed_email
   \<and> fd_reporter_email form_typed_email = ''jane@example.org''
   \<and> handleSubmit form_typed_email No_file = Some (submission form_federal None)
   \<and> si_reporter_email (submission form_typed_email None) = None"
proof -
  have a: "fd_is_anonymous form_typed_email"
    by (simp add: form_typed_email_def form_federal_def)
  note T = anonymous_submission_has_no_email [OF a, of None "''''" No_file]
  have "form_typed_email\<lparr>fd_reporter_email := ''''\<rparr> = form_federal"
    by (simp add: form_typed_email_def form_federal_def)
  with T have "submission form_federal None = submission form_typed_email None"
    and n: "si_reporter_email (submission form_typed_email None) = None"
    by simp_all
  then have "handleSubmit form_typed_email No_file = Some (submission form_federal None)"
    by (simp add: handleSubmit_def validateForm_form_typed_email)
  with a n show ?thesis by (simp add: form_typed_email_def)
qed

end
